theory Spec2Isabelle
  imports Main "HOL-Library.Word"
begin

unbundle bit_operations_syntax

section \<open>Common machinery\<close>

text \<open>
  The decoder works on raw pointers and \<^verbatim>\<open>std::vector::operator[]\<close>, neither of which
  checks bounds.  An access outside the object is undefined behaviour in C++; the model
  makes it a value: every function that indexes returns \<open>fault + result\<close>, and
  \<open>Inl OutOfBounds\<close> marks an access outside the buffer.  \<open>Inl Diverges\<close> marks a loop
  of the source that does not terminate.
\<close>

datatype fault = OutOfBounds | Diverges

text \<open>
  \<^verbatim>\<open>ErrorHandler\<close>: the process-wide flag \<^verbatim>\<open>g_lastProcessedEvent\<close>.  The event codes
  handed to \<^verbatim>\<open>PostEvent\<close> are only printed by the source (in debug mode); the model
  keeps them, oldest first, in \<open>posted\<close>.
\<close>

record ErrorHandler =
  lastProcessedEvent :: bool
  posted :: "nat list"

definition ErrorHandler_initial :: ErrorHandler where
  "ErrorHandler_initial = \<lparr>lastProcessedEvent = False, posted = []\<rparr>"

text \<open>\<^verbatim>\<open>PostEvent\<close> always returns false; the model returns the new handler state only.\<close>

definition PostEvent :: "nat \<Rightarrow> ErrorHandler \<Rightarrow> ErrorHandler" where
  "PostEvent errorCode eh = eh\<lparr>lastProcessedEvent := True, posted := posted eh @ [errorCode]\<rparr>"

definition ProcessEvent :: "nat \<Rightarrow> ErrorHandler \<Rightarrow> bool \<times> ErrorHandler" where
  "ProcessEvent errorCode eh =
     (if errorCode = 0x6A \<or> errorCode = 0x64
      then (False, eh\<lparr>lastProcessedEvent := True\<rparr>)
      else (True, eh))"

definition HasLastError :: "ErrorHandler \<Rightarrow> bool" where
  "HasLastError eh = lastProcessedEvent eh"

definition ClearError :: "ErrorHandler \<Rightarrow> ErrorHandler" where
  "ClearError eh = eh\<lparr>lastProcessedEvent := False\<rparr>"

text \<open>\<^verbatim>\<open>std::vector::resize(n, x)\<close>.\<close>

definition resize :: "nat \<Rightarrow> 'a \<Rightarrow> 'a list \<Rightarrow> 'a list" where
  "resize n x v = take n v @ replicate (n - length v) x"

text \<open>An unchecked indexed write or read, with the out-of-range case made a fault.\<close>

definition store :: "'a list \<Rightarrow> nat \<Rightarrow> 'a \<Rightarrow> fault + 'a list" where
  "store buf i v = (if i < length buf then Inr (buf[i := v]) else Inl OutOfBounds)"

definition load :: "'a list \<Rightarrow> nat \<Rightarrow> fault + 'a" where
  "load buf i = (if i < length buf then Inr (buf ! i) else Inl OutOfBounds)"

section \<open>Byte-order helpers (ByteSwap.h)\<close>

definition ApplyComplexByteSwap :: "32 word \<Rightarrow> 32 word" where
  "ApplyComplexByteSwap input =
     push_bit 8 (push_bit 16 input OR (input AND 0xFF00)) OR
     drop_bit 8 (drop_bit 16 input OR (input AND 0xFF0000))"

definition LittleToBigEndian32 :: "32 word \<Rightarrow> 32 word" where
  "LittleToBigEndian32 v =
     push_bit 24 (v AND 0xFF) OR push_bit 8 (v AND 0xFF00) OR
     drop_bit 8 (v AND 0xFF0000) OR drop_bit 24 (v AND 0xFF000000)"

text \<open>
  \<^verbatim>\<open>ReadLittleEndian32(data)\<close> reads \<^verbatim>\<open>data[0..3]\<close> of a raw pointer; the model takes
  the buffer and the offset of the pointer in it.
\<close>

definition ReadLittleEndian32 :: "8 word list \<Rightarrow> nat \<Rightarrow> fault + 32 word" where
  "ReadLittleEndian32 data off =
     (if off + 4 \<le> length data
      then Inr (ucast (data ! off) OR
                push_bit 8 (ucast (data ! (off + 1))) OR
                push_bit 16 (ucast (data ! (off + 2))) OR
                push_bit 24 (ucast (data ! (off + 3))))
      else Inl OutOfBounds)"

section \<open>Header discriminator (HeaderDetector)\<close>

datatype HeaderType = NoHeader | VersionOnly | FullHeader

record FileHeader =
  type_fh :: HeaderType
  magic :: "32 word"
  version :: "32 word"
  info :: "32 word"
  headerSize :: nat
  chunkOffset :: nat

text \<open>The default constructor of \<^verbatim>\<open>FileHeader\<close>.\<close>

definition FileHeader_new :: FileHeader where
  "FileHeader_new =
     \<lparr>type_fh = NoHeader, magic = 0, version = 0, info = 0, headerSize = 0, chunkOffset = 0\<rparr>"

definition IsValidVersionRange :: "32 word \<Rightarrow> bool" where
  "IsValidVersionRange v = (v \<ge> 0x01000100 \<and> v \<le> 0x10000100)"

definition DetectHeaderType :: "32 word \<Rightarrow> HeaderType" where
  "DetectHeaderType first4bytes =
     (if first4bytes = 0x4D474433 then FullHeader
      else if IsValidVersionRange first4bytes then VersionOnly
      else NoHeader)"

text \<open>
  \<^verbatim>\<open>DetectHeader(data, fileSize)\<close>.  The pointer is \<open>None\<close> when null, and
  \<^verbatim>\<open>fileSize\<close> is the length of the buffer.
\<close>

definition DetectHeader ::
  "8 word list option \<Rightarrow> ErrorHandler \<Rightarrow> fault + (FileHeader \<times> ErrorHandler)" where
  "DetectHeader dataptr eh =
     (case dataptr of
        None \<Rightarrow> Inr (FileHeader_new, PostEvent 0x6A eh)
      | Some data \<Rightarrow>
          if length data < 4 then Inr (FileHeader_new, PostEvent 0x6A eh)
          else
            (case ReadLittleEndian32 data 0 of
               Inl f \<Rightarrow> Inl f
             | Inr first4bytes \<Rightarrow>
                 (case DetectHeaderType first4bytes of
                    FullHeader \<Rightarrow>
                      if length data < 12
                      then Inr (FileHeader_new\<lparr>type_fh := NoHeader\<rparr>, PostEvent 0x6A eh)
                      else
                        (case ReadLittleEndian32 data 4 of
                           Inl f \<Rightarrow> Inl f
                         | Inr v \<Rightarrow>
                             (case ReadLittleEndian32 data 8 of
                                Inl f \<Rightarrow> Inl f
                              | Inr i \<Rightarrow>
                                  Inr (\<lparr>type_fh = FullHeader, magic = first4bytes, version = v,
                                        info = i, headerSize = 12, chunkOffset = 12\<rparr>, eh)))
                  | VersionOnly \<Rightarrow>
                      Inr (\<lparr>type_fh = VersionOnly, magic = 0, version = first4bytes,
                            info = 0, headerSize = 4, chunkOffset = 4\<rparr>, eh)
                  | NoHeader \<Rightarrow>
                      Inr (\<lparr>type_fh = NoHeader, magic = 0, version = 0,
                            info = 0, headerSize = 0, chunkOffset = 0\<rparr>, eh))))"

definition ValidateHeader :: "FileHeader \<Rightarrow> 8 word list option \<Rightarrow> bool" where
  "ValidateHeader header dataptr =
     (case dataptr of
        None \<Rightarrow> False
      | Some data \<Rightarrow>
          if chunkOffset header \<ge> length data then False
          else if type_fh header = FullHeader \<and> magic header \<noteq> 0x4D474433 then False
          else if type_fh header = VersionOnly \<and> \<not> IsValidVersionRange (version header) then False
          else if length data - chunkOffset header < 8 then False
          else True)"

section \<open>Chunk scanner (ChunkTypes.h, ChunkHeader.h, ChunkReader)\<close>

datatype ChunkType = Dot2 | FDot | Prim | Line | soPF | FPos | TxNm | End | Unknown

definition GetChunkTypeFromRawID :: "32 word \<Rightarrow> ChunkType" where
  "GetChunkTypeFromRawID rawID =
     (if rawID = 0x32746f44 then Dot2
      else if rawID = 0x746f4446 then FDot
      else if rawID = 0x6d697250 then Prim
      else if rawID = 0x656e694c then Line
      else if rawID = 0x46506f73 then soPF
      else if rawID = 0x736f5046 then FPos
      else if rawID = 0x6d4e7854 then TxNm
      else if rawID = 0x20646e45 then End
      else Unknown)"

record ChunkHeader =
  rawID :: "32 word"
  size_ch :: "32 word"
  type_ch :: ChunkType

definition ChunkHeader_new :: ChunkHeader where
  "ChunkHeader_new = \<lparr>rawID = 0, size_ch = 0, type_ch = Unknown\<rparr>"

definition ChunkHeader_of :: "32 word \<Rightarrow> 32 word \<Rightarrow> ChunkHeader" where
  "ChunkHeader_of ident dataSize =
     \<lparr>rawID = ident, size_ch = dataSize, type_ch = GetChunkTypeFromRawID ident\<rparr>"

definition IsValid_ch :: "ChunkHeader \<Rightarrow> bool" where
  "IsValid_ch h = (rawID h \<noteq> 0 \<and> type_ch h \<noteq> Unknown)"

definition IsEndMarker :: "ChunkHeader \<Rightarrow> bool" where
  "IsEndMarker h = (type_ch h = End)"

text \<open>\<^verbatim>\<open>GetTotalSize\<close> is computed in \<^verbatim>\<open>uint32_t\<close>: the sum wraps around.\<close>

definition GetTotalSize :: "ChunkHeader \<Rightarrow> 32 word" where
  "GetTotalSize h = 8 + size_ch h"

record ChunkReader =
  fileData :: "8 word list option"
  fileSize :: nat
  currentOffset :: nat
  discoveredChunks :: "ChunkHeader list"

definition ChunkReader_new ::
  "8 word list option \<Rightarrow> nat \<Rightarrow> nat \<Rightarrow> ErrorHandler \<Rightarrow> ChunkReader \<times> ErrorHandler" where
  "ChunkReader_new dataptr sz startOffset eh =
     (\<lparr>fileData = dataptr, fileSize = sz, currentOffset = startOffset, discoveredChunks = []\<rparr>,
      if dataptr = None then PostEvent 0x6A eh else eh)"

text \<open>
  \<^verbatim>\<open>ReadNextChunkHeader(header)\<close>: the header is an output parameter, left as it was
  when the first test fails.
\<close>

definition ReadNextChunkHeader ::
  "ChunkReader \<Rightarrow> ChunkHeader \<Rightarrow> ErrorHandler \<Rightarrow> fault + (bool \<times> ChunkHeader \<times> ErrorHandler)" where
  "ReadNextChunkHeader r header eh =
     (if currentOffset r + 8 > fileSize r then Inr (False, header, eh)
      else
        (case fileData r of
           None \<Rightarrow> Inl OutOfBounds
         | Some data \<Rightarrow>
             (case ReadLittleEndian32 data (currentOffset r) of
                Inl f \<Rightarrow> Inl f
              | Inr chunkID \<Rightarrow>
                  (case ReadLittleEndian32 data (currentOffset r + 4) of
                     Inl f \<Rightarrow> Inl f
                   | Inr chunkSize \<Rightarrow>
                       (let header' = ChunkHeader_of chunkID chunkSize in
                        if currentOffset r + unat (GetTotalSize header') > fileSize r
                        then Inr (False, header', PostEvent 0x6A eh)
                        else Inr (IsValid_ch header', header', eh))))))"

definition SkipToNextChunk :: "ChunkReader \<Rightarrow> ChunkHeader \<Rightarrow> bool \<times> ChunkReader" where
  "SkipToNextChunk r header =
     (let totalSize = unat (GetTotalSize header) in
      if currentOffset r + totalSize > fileSize r then (False, r)
      else (True, r\<lparr>currentOffset := currentOffset r + totalSize\<rparr>))"

definition Reset :: "ChunkReader \<Rightarrow> ChunkReader" where
  "Reset r =
     (let startOffset =
            (if fileSize r \<ge> 8
             then (if discoveredChunks r = [] then currentOffset r
                   else currentOffset r - currentOffset r)
             else 0)
      in r\<lparr>currentOffset := startOffset\<rparr>)"

text \<open>
  The loop of \<^verbatim>\<open>ScanAllChunks\<close>.  A known chunk whose size field is \<^verbatim>\<open>0xFFFFFFF8\<close> has
  total size 0 and keeps the loop at the same offset for ever; any other iteration that
  continues moves the offset forward.  The fuel counts iterations: started with
  \<open>fileSize + 1\<close> it runs out only when the source loops for ever.
\<close>

fun scan_loop ::
  "nat \<Rightarrow> ChunkReader \<Rightarrow> ChunkHeader \<Rightarrow> ErrorHandler \<Rightarrow> fault + (ChunkReader \<times> ErrorHandler)" where
  "scan_loop 0 r header eh = Inl Diverges"
| "scan_loop (Suc fuel) r header eh =
     (case ReadNextChunkHeader r header eh of
        Inl f \<Rightarrow> Inl f
      | Inr (ok, header', eh') \<Rightarrow>
          if \<not> ok then Inr (r, eh')
          else
            (let r' = r\<lparr>discoveredChunks := discoveredChunks r @ [header']\<rparr> in
             if IsEndMarker header' then Inr (r', eh')
             else
               (case SkipToNextChunk r' header' of
                  (False, r'') \<Rightarrow> Inr (r'', PostEvent 0x6A eh')
                | (True, r'') \<Rightarrow> scan_loop fuel r'' header' eh')))"

definition ScanAllChunks ::
  "ChunkReader \<Rightarrow> ErrorHandler \<Rightarrow> fault + (bool \<times> ChunkReader \<times> ErrorHandler)" where
  "ScanAllChunks r eh =
     (if fileData r = None then Inr (False, r, eh)
      else
        (let r0 = Reset (r\<lparr>discoveredChunks := []\<rparr>) in
         case scan_loop (fileSize r0 + 1) r0 ChunkHeader_new eh of
           Inl f \<Rightarrow> Inl f
         | Inr (r', eh') \<Rightarrow> Inr (discoveredChunks r' \<noteq> [], r', eh')))"

definition ValidateChunkStructure :: "ChunkReader \<Rightarrow> ErrorHandler \<Rightarrow> bool \<times> ErrorHandler" where
  "ValidateChunkStructure r eh =
     (if discoveredChunks r = [] then (False, eh)
      else if \<not> list_ex IsEndMarker (discoveredChunks r) then (False, PostEvent 0x6A eh)
      else (True, eh))"

section \<open>Dispatcher (Parser3GM)\<close>

text \<open>
  \<^verbatim>\<open>Parser3GM::ParseBuffer\<close>, steps 1 to 4 as written.  Steps 5 and 6
  (\<^verbatim>\<open>ProcessAllChunks\<close>, which runs whatever processors the caller registered, and
  \<^verbatim>\<open>ValidateParsedData\<close>) are the parameter \<open>steps56\<close>, applied to the reader after
  the scan.
\<close>

definition ParseBuffer ::
  "(ChunkReader \<Rightarrow> ErrorHandler \<Rightarrow> fault + (bool \<times> ErrorHandler)) \<Rightarrow>
   8 word list option \<Rightarrow> ErrorHandler \<Rightarrow> fault + (bool \<times> ErrorHandler)" where
  "ParseBuffer steps56 dataptr eh =
     (case dataptr of
        None \<Rightarrow> Inr (False, PostEvent 0x6A eh)
      | Some data \<Rightarrow>
          if length data < 8 then Inr (False, PostEvent 0x6A eh)
          else
            (case DetectHeader dataptr eh of
               Inl f \<Rightarrow> Inl f
             | Inr (fileHeader, eh1) \<Rightarrow>
                 if \<not> ValidateHeader fileHeader dataptr then Inr (False, PostEvent 0x6A eh1)
                 else
                   (case ChunkReader_new dataptr (length data) (chunkOffset fileHeader) eh1 of
                      (chunkReader, eh2) \<Rightarrow>
                        (case ScanAllChunks chunkReader eh2 of
                           Inl f \<Rightarrow> Inl f
                         | Inr (scanned, chunkReader', eh3) \<Rightarrow>
                             if \<not> scanned then Inr (False, PostEvent 0x6A eh3)
                             else
                               (case ValidateChunkStructure chunkReader' eh3 of
                                  (False, eh4) \<Rightarrow> Inr (False, PostEvent 0x6A eh4)
                                | (True, eh4) \<Rightarrow> steps56 chunkReader' eh4)))))"

section \<open>Shape model (ShapeData)\<close>

text \<open>
  The fields of \<^verbatim>\<open>ShapeData\<close> that the vertex and primitive decoders touch.
  \<^verbatim>\<open>vertexBuffer_\<close> is a \<^verbatim>\<open>std::vector<float>\<close>; the model keeps the bit pattern of each
  float, which is what the terminator is compared by.
\<close>

record ShapeData =
  vertexBuffer :: "32 word list"
  vertexCount :: nat
  primitiveBuffer :: "16 word list"
  primitiveCount :: nat
  shapeFlags :: "32 word"
  textureId :: "16 word"

definition ShapeData_new :: ShapeData where
  "ShapeData_new =
     \<lparr>vertexBuffer = [], vertexCount = 0, primitiveBuffer = [], primitiveCount = 0,
      shapeFlags = 0, textureId = - 1\<rparr>"

definition AllocateVertexBuffer :: "nat \<Rightarrow> ShapeData \<Rightarrow> ShapeData" where
  "AllocateVertexBuffer n s =
     (let floatCount = n * 8
      in s\<lparr>vertexBuffer := resize floatCount 0 (vertexBuffer s), vertexCount := n\<rparr>)"

definition AllocatePrimitiveBuffer :: "nat \<Rightarrow> ShapeData \<Rightarrow> ShapeData" where
  "AllocatePrimitiveBuffer n s =
     s\<lparr>primitiveBuffer := resize n 0 (primitiveBuffer s), primitiveCount := n\<rparr>"

definition SetVertexCount :: "nat \<Rightarrow> ShapeData \<Rightarrow> ShapeData" where
  "SetVertexCount n s = s\<lparr>vertexCount := n\<rparr>"

text \<open>\<^verbatim>\<open>textureId_\<close> is an \<^verbatim>\<open>int16_t\<close>, read signed.\<close>

definition IsValid_shape :: "ShapeData \<Rightarrow> bool" where
  "IsValid_shape s =
     (if vertexCount s = 0 then False
      else if length (vertexBuffer s) \<noteq> vertexCount s * 8 then False
      else if sint (textureId s) < - 1 then False
      else True)"

section \<open>Vertex codec DecrunchDots (VertexProcessor, FDotChunkProcessor)\<close>

text \<open>
  \<^verbatim>\<open>GlobalVariables::GetVertexTerminator\<close>: the bit pattern of
  \<^verbatim>\<open>std::numeric_limits<float>::quiet_NaN()\<close>, which is \<^verbatim>\<open>0x7FC00000\<close> in IEEE 754
  single precision.
\<close>

definition GetVertexTerminator :: "32 word" where
  "GetVertexTerminator = 0x7FC00000"

text \<open>
  \<^verbatim>\<open>Sub4F2950Rearrangement(input, output)\<close>: the first three words of the input and five
  zero words.  The input is a local array of eight words, a function of the index here.
\<close>

definition Sub4F2950Rearrangement :: "(nat \<Rightarrow> 32 word) \<Rightarrow> 32 word list" where
  "Sub4F2950Rearrangement input = [input 0, input 1, input 2, 0, 0, 0, 0, 0]"

text \<open>\<^verbatim>\<open>memcpy\<close> of whole words into the output buffer at word index \<open>p\<close>.\<close>

fun copy_words :: "32 word list \<Rightarrow> nat \<Rightarrow> 32 word list \<Rightarrow> fault + 32 word list" where
  "copy_words buf p [] = Inr buf"
| "copy_words buf p (w # ws) =
     (case store buf p w of
        Inl f \<Rightarrow> Inl f
      | Inr buf' \<Rightarrow> copy_words buf' (p + 1) ws)"

text \<open>
  The vertex loop of \<^verbatim>\<open>DecrunchDotsVertices\<close>.  The first argument counts the iterations
  left and \<open>i\<close> is the loop index.  \<open>inputPtr\<close> is the byte offset of the input cursor,
  \<open>outputPtr\<close> the word offset of the output cursor.  The source passes its local array
  \<^verbatim>\<open>localBuffer\<close> to \<^verbatim>\<open>Sub4F2950Rearrangement\<close> without having written to it; what it holds
  in iteration \<open>i\<close> is the parameter \<open>localBuffer i\<close>.  The input bytes are never
  dereferenced, so the loop does not take them.
\<close>

fun decrunch_loop ::
  "nat \<Rightarrow> nat \<Rightarrow> (nat \<Rightarrow> nat \<Rightarrow> 32 word) \<Rightarrow> nat \<Rightarrow> nat \<Rightarrow> 32 word list \<Rightarrow>
   fault + (nat \<times> nat \<times> 32 word list)" where
  "decrunch_loop 0 i localBuffer inputPtr outputPtr buf = Inr (inputPtr, outputPtr, buf)"
| "decrunch_loop (Suc k) i localBuffer inputPtr outputPtr buf =
     (let inputPtr' = inputPtr + 2 + 2 + 2;
          tempOutput = Sub4F2950Rearrangement (localBuffer i)
      in case copy_words buf outputPtr tempOutput of
           Inl f \<Rightarrow> Inl f
         | Inr buf' \<Rightarrow> decrunch_loop k (i + 1) localBuffer inputPtr' (outputPtr + 8) buf')"

text \<open>
  \<^verbatim>\<open>DecrunchDotsVertices(compressedData, outputVertices, vertexCount)\<close>.  Both pointers
  are \<open>None\<close> when null; the output pointer is the buffer it points into, and
  \<open>nVertices\<close> is the argument \<^verbatim>\<open>vertexCount\<close>.
\<close>

definition DecrunchDotsVertices ::
  "8 word list option \<Rightarrow> (nat \<Rightarrow> nat \<Rightarrow> 32 word) \<Rightarrow> 32 word list option \<Rightarrow> nat \<Rightarrow>
   ErrorHandler \<Rightarrow> fault + (bool \<times> 32 word list option \<times> ErrorHandler)" where
  "DecrunchDotsVertices compressedData localBuffer outputVertices nVertices eh =
     (case outputVertices of
        None \<Rightarrow> Inr (False, None, PostEvent 0x6A eh)
      | Some buf \<Rightarrow>
          if compressedData = None \<or> nVertices = 0
          then Inr (False, Some buf, PostEvent 0x6A eh)
          else
            (let inputPtr = 0 + 4 + 4 + 4 + 4 + 4 + 4
             in case decrunch_loop nVertices 0 localBuffer inputPtr 0 buf of
                  Inl f \<Rightarrow> Inl f
                | Inr (inputPtr', outputPtr, buf') \<Rightarrow>
                    (case store buf' outputPtr GetVertexTerminator of
                       Inl f \<Rightarrow> Inl f
                     | Inr buf'' \<Rightarrow> Inr (True, Some buf'', eh))))"

definition CalculateVertexCount :: "nat \<Rightarrow> nat" where
  "CalculateVertexCount chunkSize =
     (if chunkSize < 24 then 0
      else (let vertexDataSize = chunkSize - 24
            in if vertexDataSize mod 6 \<noteq> 0 then 0 else vertexDataSize div 6))"

definition ValidateChunkData_FDot :: "ChunkHeader \<Rightarrow> 8 word list option \<Rightarrow> bool" where
  "ValidateChunkData_FDot header dataptr =
     (if dataptr = None then False
      else if type_ch header \<noteq> FDot then False
      else if size_ch header < 24 then False
      else if (size_ch header - 24) mod 6 \<noteq> 0 then False
      else True)"

text \<open>
  \<^verbatim>\<open>FDotChunkProcessor::ProcessChunk\<close>.  \<^verbatim>\<open>GetVertexBuffer()\<close> is the data pointer of
  the vector just resized.
\<close>

definition ProcessChunk_FDot ::
  "ChunkHeader \<Rightarrow> 8 word list option \<Rightarrow> (nat \<Rightarrow> nat \<Rightarrow> 32 word) \<Rightarrow> ShapeData \<Rightarrow>
   ErrorHandler \<Rightarrow> fault + (bool \<times> ShapeData \<times> ErrorHandler)" where
  "ProcessChunk_FDot header dataptr localBuffer shape eh =
     (if \<not> ValidateChunkData_FDot header dataptr then Inr (False, shape, PostEvent 0x6A eh)
      else
        (let nVertices = CalculateVertexCount (unat (size_ch header))
         in if nVertices = 0 then Inr (False, shape, PostEvent 0x6A eh)
            else
              (let shape1 = AllocateVertexBuffer nVertices shape
               in case DecrunchDotsVertices dataptr localBuffer (Some (vertexBuffer shape1))
                         nVertices eh of
                    Inl f \<Rightarrow> Inl f
                  | Inr (ok, out, eh') \<Rightarrow>
                      (let shape2 = (case out of None \<Rightarrow> shape1
                                     | Some buf \<Rightarrow> shape1\<lparr>vertexBuffer := buf\<rparr>)
                       in if \<not> ok then Inr (False, shape2, PostEvent 0x6A eh')
                          else Inr (True, SetVertexCount nVertices shape2, eh')))))"

section \<open>Packed vertex codecs (VertexProcessor, Dot2ChunkProcessor)\<close>

text \<open>
  The \<open>k\<close>-th \<^verbatim>\<open>uint32_t\<close> behind the pointer \<^verbatim>\<open>data + base\<close>, as a little-endian host
  loads it.
\<close>

definition load32 :: "8 word list \<Rightarrow> nat \<Rightarrow> nat \<Rightarrow> fault + 32 word" where
  "load32 data base k = ReadLittleEndian32 data (base + 4 * k)"

text \<open>
  The vertex loop of \<^verbatim>\<open>ConvertPackedToFloatVertices\<close>.  \<open>p\<close> counts the words the input
  pointer has moved, \<open>v4\<close> is the word offset of the output pointer, and \<open>to_float\<close> gives
  the bit pattern of \<^verbatim>\<open>static_cast<float>\<close> of an unsigned 32-bit value.
\<close>

fun packed_loop ::
  "nat \<Rightarrow> (32 word \<Rightarrow> 32 word) \<Rightarrow> 8 word list \<Rightarrow> nat \<Rightarrow> nat \<Rightarrow> nat \<Rightarrow> 32 word list \<Rightarrow>
   fault + (nat \<times> nat \<times> 32 word list)" where
  "packed_loop 0 to_float data base p v4 buf = Inr (p, v4, buf)"
| "packed_loop (Suc k) to_float data base p v4 buf =
     (case load32 data base p of
        Inl f \<Rightarrow> Inl f
      | Inr xw \<Rightarrow>
          (let xPacked = ApplyComplexByteSwap xw; p' = p + 3
           in case store buf v4 (to_float xPacked) of
                Inl f \<Rightarrow> Inl f
              | Inr buf1 \<Rightarrow>
                  (let v4' = v4 + 8
                   in case load32 data base (p' - 2) of
                        Inl f \<Rightarrow> Inl f
                      | Inr yw \<Rightarrow>
                          (case store buf1 (v4' - 7) (to_float (ApplyComplexByteSwap yw)) of
                             Inl f \<Rightarrow> Inl f
                           | Inr buf2 \<Rightarrow>
                               (case load32 data base (p' - 1) of
                                  Inl f \<Rightarrow> Inl f
                                | Inr zw \<Rightarrow>
                                    (case store buf2 (v4' - 6)
                                            (to_float (ApplyComplexByteSwap zw)) of
                                       Inl f \<Rightarrow> Inl f
                                     | Inr buf3 \<Rightarrow>
                                         packed_loop k to_float data base p' v4' buf3))))))"

text \<open>
  \<^verbatim>\<open>ConvertPackedToFloatVertices(packedVertices, outputVertices, vertexCount)\<close>; the input
  pointer is the buffer with the byte offset \<open>base\<close> in it.
\<close>

definition ConvertPackedToFloatVertices ::
  "(32 word \<Rightarrow> 32 word) \<Rightarrow> 8 word list option \<Rightarrow> nat \<Rightarrow> 32 word list option \<Rightarrow> nat \<Rightarrow>
   ErrorHandler \<Rightarrow> fault + (bool \<times> 32 word list option \<times> ErrorHandler)" where
  "ConvertPackedToFloatVertices to_float packedVertices base outputVertices nVertices eh =
     (case (packedVertices, outputVertices) of
        (Some data, Some buf) \<Rightarrow>
          if nVertices = 0 then Inr (False, outputVertices, PostEvent 0x6A eh)
          else
            (case packed_loop nVertices to_float data base 0 0 buf of
               Inl f \<Rightarrow> Inl f
             | Inr (p, v4, buf') \<Rightarrow>
                 (case store buf' v4 GetVertexTerminator of
                    Inl f \<Rightarrow> Inl f
                  | Inr buf'' \<Rightarrow> Inr (True, Some buf'', eh)))
      | _ \<Rightarrow> Inr (False, outputVertices, PostEvent 0x6A eh))"

text \<open>The loop of \<^verbatim>\<open>ConvertPackedToFloatVertices3Component\<close>.\<close>

fun packed3_loop ::
  "nat \<Rightarrow> (32 word \<Rightarrow> 32 word) \<Rightarrow> 8 word list \<Rightarrow> nat \<Rightarrow> nat \<Rightarrow> nat \<Rightarrow> 32 word list \<Rightarrow>
   fault + (nat \<times> nat \<times> 32 word list)" where
  "packed3_loop 0 to_float data base p v4 buf = Inr (p, v4, buf)"
| "packed3_loop (Suc k) to_float data base p v4 buf =
     (case load32 data base p of
        Inl f \<Rightarrow> Inl f
      | Inr xw \<Rightarrow>
          (case store buf v4 (to_float (ApplyComplexByteSwap xw)) of
             Inl f \<Rightarrow> Inl f
           | Inr buf1 \<Rightarrow>
               (case load32 data base (p + 1) of
                  Inl f \<Rightarrow> Inl f
                | Inr yw \<Rightarrow>
                    (case store buf1 (v4 + 1) (to_float (ApplyComplexByteSwap yw)) of
                       Inl f \<Rightarrow> Inl f
                     | Inr buf2 \<Rightarrow>
                         (case load32 data base (p + 2) of
                            Inl f \<Rightarrow> Inl f
                          | Inr zw \<Rightarrow>
                              (case store buf2 (v4 + 2) (to_float (ApplyComplexByteSwap zw)) of
                                 Inl f \<Rightarrow> Inl f
                               | Inr buf3 \<Rightarrow>
                                   packed3_loop k to_float data base (p + 3) (v4 + 8) buf3))))))"

definition ConvertPackedToFloatVertices3Component ::
  "(32 word \<Rightarrow> 32 word) \<Rightarrow> 8 word list option \<Rightarrow> nat \<Rightarrow> 32 word list option \<Rightarrow> nat \<Rightarrow>
   ErrorHandler \<Rightarrow> fault + (bool \<times> 32 word list option \<times> ErrorHandler)" where
  "ConvertPackedToFloatVertices3Component to_float packedVertices base outputVertices nVertices eh =
     (case (packedVertices, outputVertices) of
        (Some data, Some buf) \<Rightarrow>
          if nVertices = 0 then Inr (False, outputVertices, PostEvent 0x6A eh)
          else
            (case packed3_loop nVertices to_float data base 0 0 buf of
               Inl f \<Rightarrow> Inl f
             | Inr (p, v4, buf') \<Rightarrow>
                 (case store buf' v4 GetVertexTerminator of
                    Inl f \<Rightarrow> Inl f
                  | Inr buf'' \<Rightarrow> Inr (True, Some buf'', eh)))
      | _ \<Rightarrow> Inr (False, outputVertices, PostEvent 0x6A eh))"

definition ValidateChunkData_Dot2 :: "ChunkHeader \<Rightarrow> 8 word list option \<Rightarrow> bool" where
  "ValidateChunkData_Dot2 header dataptr =
     (if dataptr = None then False
      else if type_ch header \<noteq> Dot2 then False
      else if size_ch header < 8 then False
      else if (size_ch header - 8) mod 12 \<noteq> 0 then False
      else True)"

text \<open>\<^verbatim>\<open>Dot2ChunkProcessor::ProcessChunk\<close>.\<close>

definition ProcessChunk_Dot2 ::
  "(32 word \<Rightarrow> 32 word) \<Rightarrow> ChunkHeader \<Rightarrow> 8 word list option \<Rightarrow> ShapeData \<Rightarrow>
   ErrorHandler \<Rightarrow> fault + (bool \<times> ShapeData \<times> ErrorHandler)" where
  "ProcessChunk_Dot2 to_float header dataptr shape eh =
     (if \<not> ValidateChunkData_Dot2 header dataptr then Inr (False, shape, PostEvent 0x6A eh)
      else if size_ch header < 8 then Inr (False, shape, PostEvent 0x6A eh)
      else
        (let vertexDataSize = unat (size_ch header) - 8
         in if vertexDataSize mod 12 \<noteq> 0 then Inr (False, shape, PostEvent 0x6A eh)
            else
              (let nVertices = vertexDataSize div 12;
                   shape1 = AllocateVertexBuffer nVertices shape
               in case ConvertPackedToFloatVertices to_float dataptr 8
                         (Some (vertexBuffer shape1)) nVertices eh of
                    Inl f \<Rightarrow> Inl f
                  | Inr (ok, out, eh') \<Rightarrow>
                      (let shape2 = (case out of None \<Rightarrow> shape1
                                     | Some buf \<Rightarrow> shape1\<lparr>vertexBuffer := buf\<rparr>)
                       in if \<not> ok then Inr (False, shape2, PostEvent 0x6A eh')
                          else Inr (True, SetVertexCount nVertices shape2, eh')))))"

section \<open>Primitive stream decoder (PrimitiveTypes.h, PrimitiveProcessor)\<close>

text \<open>
  \<^verbatim>\<open>enum class PrimitiveType : uint16_t\<close>.  The stream token is cast to the enum
  unchecked, so a value of the type is any 16-bit word; the enumerators are constants.
\<close>

definition TriangleStrip :: "16 word" where "TriangleStrip = 16646"
definition QuadStripInput :: "16 word" where "QuadStripInput = 18189"
definition QuadStrip :: "16 word" where "QuadStrip = 18190"
definition TriangleList :: "16 word" where "TriangleList = 20486"
definition PointSprite :: "16 word" where "PointSprite = 21251"
definition LineStrip :: "16 word" where "LineStrip = 28422"
definition LineStripAlt :: "16 word" where "LineStripAlt = 28423"
definition ComplexPrimitive :: "16 word" where "ComplexPrimitive = 30733"
definition EndMarker :: "16 word" where "EndMarker = 24576"
definition Terminator :: "16 word" where "Terminator = 0xFFFE"

definition LOBYTE_BASIC :: "32 word" where "LOBYTE_BASIC = 0x00000001"
definition HIBYTE_EXTENDED :: "32 word" where "HIBYTE_EXTENDED = 0x00000100"
definition BYTE2_INDEXED :: "32 word" where "BYTE2_INDEXED = 0x00010000"
definition LOWORD_COMPLEX :: "32 word" where "LOWORD_COMPLEX = 0x00000101"

definition GetFlagsForType :: "16 word \<Rightarrow> 32 word" where
  "GetFlagsForType t =
     (if t = TriangleStrip then LOBYTE_BASIC OR BYTE2_INDEXED
      else if t = QuadStrip then LOWORD_COMPLEX OR HIBYTE_EXTENDED
      else if t = TriangleList then LOBYTE_BASIC OR BYTE2_INDEXED
      else if t = PointSprite then LOBYTE_BASIC
      else if t = LineStrip then LOBYTE_BASIC OR HIBYTE_EXTENDED
      else if t = ComplexPrimitive then LOWORD_COMPLEX
      else 0)"

definition ConvertInputType :: "16 word \<Rightarrow> 16 word" where
  "ConvertInputType inputType =
     (if inputType = QuadStripInput then QuadStrip
      else if inputType = LineStripAlt then PointSprite
      else inputType)"

definition IsValidPrimitiveType :: "16 word \<Rightarrow> bool" where
  "IsValidPrimitiveType t =
     (t = TriangleStrip \<or> t = QuadStripInput \<or> t = QuadStrip \<or> t = TriangleList \<or>
      t = PointSprite \<or> t = LineStrip \<or> t = LineStripAlt \<or> t = ComplexPrimitive \<or>
      t = EndMarker \<or> t = Terminator)"

definition IsControlConstant :: "16 word \<Rightarrow> bool" where
  "IsControlConstant t = (t = EndMarker \<or> t = Terminator)"

text \<open>
  \<^verbatim>\<open>SetPrimitiveFlags(type)\<close> overwrites the process-wide register \<^verbatim>\<open>g_primitiveFlags\<close>;
  the model threads the register as a value, and this is its new content.
\<close>

definition SetPrimitiveFlags :: "16 word \<Rightarrow> 32 word" where
  "SetPrimitiveFlags t = GetFlagsForType t"

text \<open>
  \<^verbatim>\<open>ParsePrimitiveType(data, offset, parsedType)\<close>.  The stream is the list of its 16-bit
  tokens, \<^verbatim>\<open>dataSize\<close> its length.
\<close>

definition ParsePrimitiveType :: "16 word list option \<Rightarrow> nat \<Rightarrow> fault + (bool \<times> 16 word)" where
  "ParsePrimitiveType dataptr offset =
     (case dataptr of
        None \<Rightarrow> Inr (False, 0)
      | Some data \<Rightarrow>
          (case load data offset of
             Inl f \<Rightarrow> Inl f
           | Inr rawType \<Rightarrow> Inr (IsValidPrimitiveType rawType, rawType)))"

definition ValidatePrimitiveData :: "16 word list option \<Rightarrow> bool" where
  "ValidatePrimitiveData dataptr =
     (case dataptr of
        None \<Rightarrow> False
      | Some data \<Rightarrow>
          if length data = 0 then False
          else if length data < 2 then False
          else True)"

function count_loop :: "16 word list \<Rightarrow> nat \<Rightarrow> nat \<Rightarrow> fault + nat" where
  "count_loop data offset count =
     (if offset < length data
      then (case ParsePrimitiveType (Some data) offset of
              Inl f \<Rightarrow> Inl f
            | Inr (ok, t) \<Rightarrow>
                if \<not> ok then Inr count
                else if t = EndMarker then Inr count
                else count_loop data (offset + 1)
                       (if \<not> IsControlConstant t then count + 1 else count))
      else Inr count)"
  by pat_completeness auto
termination
  by (relation "measure (\<lambda>(data, offset, count). length data - offset)") auto

declare count_loop.simps [simp del]

definition CountPrimitives :: "16 word list option \<Rightarrow> fault + nat" where
  "CountPrimitives dataptr =
     (case dataptr of
        None \<Rightarrow> Inr 0
      | Some data \<Rightarrow> if length data = 0 then Inr 0 else count_loop data 0 0)"

text \<open>
  \<^verbatim>\<open>ConvertToTriangleList(stripData, count)\<close>, with \<open>count\<close> the length of the list:
  the loop pushes three indices for each \<open>i < count - 2\<close>.
\<close>

definition ConvertToTriangleList :: "16 word list \<Rightarrow> 16 word list" where
  "ConvertToTriangleList stripData =
     (if length stripData < 3 then []
      else foldl (\<lambda>triangles i.
                    triangles @ [stripData ! i, stripData ! (i + 1), stripData ! (i + 2)])
             [] [0 ..< length stripData - 2])"

text \<open>
  \<^verbatim>\<open>ConvertQuadToTriangles(quadData, count)\<close>: \<open>i\<close> runs over the multiples of 4 below
  \<open>count\<close>, and a quad is converted when \<open>i + 3 < count\<close>.
\<close>

definition ConvertQuadToTriangles :: "16 word list \<Rightarrow> 16 word list" where
  "ConvertQuadToTriangles quadData =
     (if length quadData < 4 then []
      else foldl (\<lambda>triangles q.
                    (let i = 4 * q in
                     if i + 3 < length quadData
                     then triangles @ [quadData ! i, quadData ! (i + 1), quadData ! (i + 2),
                                       quadData ! i, quadData ! (i + 2), quadData ! (i + 3)]
                     else triangles))
             [] [0 ..< (length quadData + 3) div 4])"

text \<open>
  The per-kind processing functions.  Each gets the tokens after the type token
  (\<^verbatim>\<open>typeData\<close>, whose length is \<^verbatim>\<open>remainingData\<close>); the strip and quad functions compute a
  triangle list and drop it.
\<close>

definition ProcessTriangleStrip :: "16 word list \<Rightarrow> ShapeData \<Rightarrow> bool" where
  "ProcessTriangleStrip typeData shape = (let triangles = ConvertToTriangleList typeData in True)"

definition ProcessTriangleList :: "16 word list \<Rightarrow> ShapeData \<Rightarrow> bool" where
  "ProcessTriangleList typeData shape = True"

definition ProcessQuadStrip :: "16 word list \<Rightarrow> ShapeData \<Rightarrow> bool" where
  "ProcessQuadStrip typeData shape = (let triangles = ConvertQuadToTriangles typeData in True)"

definition ProcessPointSprite :: "16 word list \<Rightarrow> ShapeData \<Rightarrow> bool" where
  "ProcessPointSprite typeData shape = True"

definition ProcessLineStrip :: "16 word list \<Rightarrow> ShapeData \<Rightarrow> bool" where
  "ProcessLineStrip typeData shape = True"

definition ProcessComplexPrimitive ::
  "16 word list \<Rightarrow> ShapeData \<Rightarrow> ErrorHandler \<Rightarrow> bool \<times> ErrorHandler" where
  "ProcessComplexPrimitive typeData shape eh =
     (if length typeData < 10 then (False, PostEvent 0x6A eh) else (True, eh))"

text \<open>
  One iteration of the \<^verbatim>\<open>while\<close> loop of \<^verbatim>\<open>ProcessPrimitiveData\<close>, entered with
  \<open>offset < dataSize\<close>: it either leaves the function with a result, or goes round again
  with a new offset, register and handler state.
\<close>

datatype loop_step =
    Return bool "32 word" ErrorHandler
  | Continue nat "32 word" ErrorHandler

definition prim_step ::
  "16 word list \<Rightarrow> nat \<Rightarrow> ShapeData \<Rightarrow> 32 word \<Rightarrow> ErrorHandler \<Rightarrow> fault + loop_step" where
  "prim_step data offset shape primitiveFlags eh =
     (case ParsePrimitiveType (Some data) offset of
        Inl f \<Rightarrow> Inl f
      | Inr (ok, t) \<Rightarrow>
          if \<not> ok then Inr (Return True primitiveFlags eh)
          else if IsControlConstant t
          then (if t = EndMarker then Inr (Return True primitiveFlags eh)
                else Inr (Continue (offset + 1) primitiveFlags eh))
          else
            (let primitiveFlags' = SetPrimitiveFlags t;
                 t' = ConvertInputType t;
                 typeData = drop (offset + 1) data;
                 (processed, eh') =
                   (if t' = TriangleStrip then (ProcessTriangleStrip typeData shape, eh)
                    else if t' = TriangleList then (ProcessTriangleList typeData shape, eh)
                    else if t' = QuadStrip then (ProcessQuadStrip typeData shape, eh)
                    else if t' = PointSprite then (ProcessPointSprite typeData shape, eh)
                    else if t' = LineStrip then (ProcessLineStrip typeData shape, eh)
                    else if t' = ComplexPrimitive then ProcessComplexPrimitive typeData shape eh
                    else (False, PostEvent 0x6A eh))
             in if \<not> processed then Inr (Return False primitiveFlags' eh')
                else Inr (Continue (offset + 10) primitiveFlags' eh')))"

text \<open>
  The loop itself.  Every \<open>Continue\<close> of \<open>prim_step\<close> moves the offset forward (by 1
  or by 10), which is what makes the loop end; the test \<open>offset < offset'\<close> records
  that for the termination proof and never fails.
\<close>

function prim_loop ::
  "16 word list \<Rightarrow> nat \<Rightarrow> ShapeData \<Rightarrow> 32 word \<Rightarrow> ErrorHandler \<Rightarrow>
   fault + (bool \<times> 32 word \<times> ErrorHandler)" where
  "prim_loop data offset shape primitiveFlags eh =
     (if offset < length data
      then (case prim_step data offset shape primitiveFlags eh of
              Inl f \<Rightarrow> Inl f
            | Inr (Return ok primitiveFlags' eh') \<Rightarrow> Inr (ok, primitiveFlags', eh')
            | Inr (Continue offset' primitiveFlags' eh') \<Rightarrow>
                if offset < offset' then prim_loop data offset' shape primitiveFlags' eh'
                else Inl Diverges)
      else Inr (True, primitiveFlags, eh))"
  by pat_completeness auto
termination
  by (relation "measure (\<lambda>(data, offset, shape, primitiveFlags, eh). length data - offset)") auto

declare prim_loop.simps [simp del]

text \<open>
  \<^verbatim>\<open>ProcessPrimitiveData(primitiveData, dataSize, shape)\<close>.  The result carries the shape
  and the primitive-flag register after the call.
\<close>

definition ProcessPrimitiveData ::
  "16 word list option \<Rightarrow> ShapeData \<Rightarrow> 32 word \<Rightarrow> ErrorHandler \<Rightarrow>
   fault + (bool \<times> ShapeData \<times> 32 word \<times> ErrorHandler)" where
  "ProcessPrimitiveData dataptr shape primitiveFlags eh =
     (if \<not> ValidatePrimitiveData dataptr then Inr (False, shape, primitiveFlags, PostEvent 0x6A eh)
      else
        (case CountPrimitives dataptr of
           Inl f \<Rightarrow> Inl f
         | Inr nPrimitives \<Rightarrow>
             if nPrimitives = 0 then Inr (True, shape, primitiveFlags, eh)
             else
               (let shape' = AllocatePrimitiveBuffer (nPrimitives * 3) shape
                in case dataptr of
                     None \<Rightarrow> Inl OutOfBounds
                   | Some data \<Rightarrow>
                       (case prim_loop data 0 shape' primitiveFlags eh of
                          Inl f \<Rightarrow> Inl f
                        | Inr (ok, primitiveFlags', eh') \<Rightarrow>
                            Inr (ok, shape', primitiveFlags', eh')))))"

section \<open>OBJ export of triangle strips (OBJExporter)\<close>

text \<open>
  The case \<^verbatim>\<open>PRIMITIVE_TRIANGLE_STRIP\<close> of the face loop of \<^verbatim>\<open>OBJExporter::WriteOBJFile\<close>:
  the faces handed to \<^verbatim>\<open>WriteFace\<close>, in order, for a primitive whose \<^verbatim>\<open>indexCount\<close> is the
  length of its index array.  The indices are \<^verbatim>\<open>uint32_t\<close>; each face holds them plus one,
  converted to \<^verbatim>\<open>int\<close>.
\<close>

definition WriteOBJFile_strip_faces :: "32 word list \<Rightarrow> int list list" where
  "WriteOBJFile_strip_faces indices =
     (if 3 \<le> length indices
      then map (\<lambda>j. if j mod 2 = 0
                     then [sint (indices ! j + 1), sint (indices ! (j + 1) + 1),
                           sint (indices ! (j + 2) + 1)]
                     else [sint (indices ! (j + 1) + 1), sint (indices ! j + 1),
                           sint (indices ! (j + 2) + 1)])
             [0 ..< length indices - 2]
      else [])"

section \<open>Surface table (SurfaceData.h, SurfaceGenerator)\<close>

text \<open>\<^verbatim>\<open>textureID\<close> is an \<^verbatim>\<open>int16_t\<close>, read signed; the other fields are unsigned.\<close>

record SurfaceTableEntry =
  textureID :: "16 word"
  primitiveType :: "16 word"
  flags :: "16 word"
  status :: "16 word"

definition SurfaceTableEntry_new :: SurfaceTableEntry where
  "SurfaceTableEntry_new = \<lparr>textureID = - 1, primitiveType = 0, flags = 0, status = 0\<rparr>"

definition IsActive :: "SurfaceTableEntry \<Rightarrow> bool" where
  "IsActive e = (status e AND 0x01 \<noteq> 0)"

definition SetActive :: "bool \<Rightarrow> SurfaceTableEntry \<Rightarrow> SurfaceTableEntry" where
  "SetActive active e =
     (if active then e\<lparr>status := status e OR 0x01\<rparr> else e\<lparr>status := status e AND NOT 0x01\<rparr>)"

definition SetAlpha :: "bool \<Rightarrow> SurfaceTableEntry \<Rightarrow> SurfaceTableEntry" where
  "SetAlpha alpha e =
     (if alpha then e\<lparr>status := status e OR 0x02\<rparr> else e\<lparr>status := status e AND NOT 0x02\<rparr>)"

text \<open>
  \<^verbatim>\<open>nextEntry\<close> is an \<^verbatim>\<open>int32_t\<close>; the code stores only \<open>-1\<close> and indices of hash
  entries (16-bit values) in it, so the model keeps it as an integer.
\<close>

record SurfaceHashEntry =
  searchKey :: "32 word"
  surfaceID :: "16 word"
  padding :: "16 word"
  nextEntry :: int
  reserved :: "32 word"

definition SurfaceHashEntry_new :: SurfaceHashEntry where
  "SurfaceHashEntry_new =
     \<lparr>searchKey = 0, surfaceID = 0, padding = 0, nextEntry = - 1, reserved = 0\<rparr>"

definition GetSearchKey :: "16 word \<Rightarrow> 16 word \<Rightarrow> 32 word" where
  "GetSearchKey pt fl = push_bit 16 (ucast pt) OR ucast fl"

text \<open>
  The members of \<^verbatim>\<open>SurfaceGenerator\<close>.  The entries of \<^verbatim>\<open>textureHashTable_\<close> are
  \<^verbatim>\<open>int32_t\<close>, integers here for the same reason as \<open>nextEntry\<close>.
\<close>

record SurfaceGenerator =
  textureHashTable :: "int list"
  hashCollisionData :: "SurfaceHashEntry list"
  surfaceTable :: "SurfaceTableEntry list"
  maxTextures :: int
  maxSurfaces :: int
  systemInitialized :: bool
  nextSurfaceID :: "16 word"
  nextHashEntry :: "16 word"

text \<open>The constructor.\<close>

definition SurfaceGenerator_new :: SurfaceGenerator where
  "SurfaceGenerator_new =
     \<lparr>textureHashTable = [], hashCollisionData = [], surfaceTable = [],
      maxTextures = 1000, maxSurfaces = 2000, systemInitialized = False,
      nextSurfaceID = 1, nextHashEntry = 0\<rparr>"

definition Cleanup :: "SurfaceGenerator \<Rightarrow> SurfaceGenerator" where
  "Cleanup g =
     g\<lparr>textureHashTable := [], hashCollisionData := [], surfaceTable := [],
       systemInitialized := False\<rparr>"

definition IsValidTextureID :: "SurfaceGenerator \<Rightarrow> 16 word \<Rightarrow> bool" where
  "IsValidTextureID g tex = (sint tex \<ge> - 1 \<and> sint tex < maxTextures g)"

definition IsValidSurfaceID :: "SurfaceGenerator \<Rightarrow> 16 word \<Rightarrow> bool" where
  "IsValidSurfaceID g sid = (sid > 0 \<and> uint sid < maxSurfaces g)"

definition InitializeSurface :: "16 word \<Rightarrow> SurfaceGenerator \<Rightarrow> fault + SurfaceGenerator" where
  "InitializeSurface sid g =
     (if \<not> IsValidSurfaceID g sid then Inr g
      else
        (case load (surfaceTable g) (unat sid) of
           Inl f \<Rightarrow> Inl f
         | Inr surface \<Rightarrow>
             Inr (g\<lparr>surfaceTable := (surfaceTable g)
                    [unat sid := surface\<lparr>textureID := - 1, primitiveType := 0, flags := 0,
                                         status := status surface AND NOT 0x02\<rparr>]\<rparr>)))"

text \<open>
  The loop of \<^verbatim>\<open>Initialize\<close> over the surface ids.  Its counter is a \<^verbatim>\<open>uint16_t\<close>
  compared with the \<^verbatim>\<open>int32_t\<close> bound, so for a bound above 65535 the source never leaves
  the loop; \<open>Initialize\<close> below tests that before it runs the loop over the ids.
\<close>

fun init_loop :: "nat list \<Rightarrow> SurfaceGenerator \<Rightarrow> fault + SurfaceGenerator" where
  "init_loop [] g = Inr g"
| "init_loop (i # ids) g =
     (case InitializeSurface (of_nat i) g of
        Inl f \<Rightarrow> Inl f
      | Inr g' \<Rightarrow> init_loop ids g')"

text \<open>
  \<^verbatim>\<open>Initialize(maxTextures, maxSurfaces)\<close>; the arguments are \<^verbatim>\<open>int32_t\<close> values.  A
  negative size makes \<^verbatim>\<open>resize\<close> throw \<^verbatim>\<open>std::length_error\<close>, which the \<^verbatim>\<open>catch\<close> turns
  into event \<^verbatim>\<open>0x64\<close> and the result false; the vectors resized before the throw stay
  resized.  The product \<^verbatim>\<open>maxSurfaces * 2\<close> is computed in \<^verbatim>\<open>int32_t\<close>, where it wraps
  around: \<open>doubled\<close> below is the wrapped product, read signed.  Running out of memory is
  not modelled.
\<close>

definition Initialize ::
  "int \<Rightarrow> int \<Rightarrow> SurfaceGenerator \<Rightarrow> ErrorHandler \<Rightarrow>
   fault + (bool \<times> SurfaceGenerator \<times> ErrorHandler)" where
  "Initialize maxT maxS g eh =
     (let g0 = (if systemInitialized g then Cleanup g else g);
          g1 = g0\<lparr>maxTextures := maxT, maxSurfaces := maxS\<rparr>
      in if maxT < 0 then Inr (False, g1, PostEvent 0x64 eh)
         else
           (let g2 = g1\<lparr>textureHashTable := resize (nat maxT) (- 1) (textureHashTable g1)\<rparr>;
                doubled = sint (word_of_int maxS * 2 :: 32 word)
            in if doubled < 0 then Inr (False, g2, PostEvent 0x64 eh)
               else
                 (let g2' = g2\<lparr>hashCollisionData :=
                                   resize (nat doubled) SurfaceHashEntry_new (hashCollisionData g2)\<rparr>
                  in if maxS < 0 then Inr (False, g2', PostEvent 0x64 eh)
                     else
                       (let g3 = g2'\<lparr>surfaceTable :=
                                         resize (nat maxS) SurfaceTableEntry_new (surfaceTable g2')\<rparr>
                        in if maxS > 65535 then Inl Diverges
                           else
                             (case init_loop [0 ..< nat maxS] g3 of
                                Inl f \<Rightarrow> Inl f
                              | Inr g4 \<Rightarrow>
                                  Inr (True,
                                       g4\<lparr>systemInitialized := True, nextSurfaceID := 1,
                                          nextHashEntry := 0\<rparr>,
                                       eh))))))"

text \<open>
  The collision-chain loop of \<^verbatim>\<open>GetSurfaceHash\<close>.  Each round reads one hash entry.  The
  fuel counts the rounds: started with one more than the number of entries it runs out
  only after some entry has been read twice, which is when the source walks a cyclic
  chain for ever.  A negative \<^verbatim>\<open>int32_t\<close> index converts to a huge \<^verbatim>\<open>size_t\<close>: out of
  bounds.
\<close>

fun chain_walk :: "nat \<Rightarrow> SurfaceHashEntry list \<Rightarrow> 32 word \<Rightarrow> int \<Rightarrow> fault + 16 word" where
  "chain_walk 0 hcd key hashEntry = Inl Diverges"
| "chain_walk (Suc fuel) hcd key hashEntry =
     (if hashEntry < 0 \<or> nat hashEntry \<ge> length hcd then Inl OutOfBounds
      else if searchKey (hcd ! nat hashEntry) \<noteq> key
      then (let hashEntry' = nextEntry (hcd ! nat hashEntry)
            in if hashEntry' = - 1 then Inr 0xFFFF
               else chain_walk fuel hcd key hashEntry')
      else Inr (surfaceID (hcd ! nat hashEntry)))"

definition GetSurfaceHash ::
  "16 word \<Rightarrow> 16 word \<Rightarrow> 16 word \<Rightarrow> SurfaceGenerator \<Rightarrow> ErrorHandler \<Rightarrow>
   fault + (16 word \<times> ErrorHandler)" where
  "GetSurfaceHash pt tex fl g eh =
     (if sint tex \<ge> maxTextures g \<or> sint tex < - 1 then Inr (0xFFFF, PostEvent 800 eh)
      else
        (let (ready, eh1) = (if \<not> systemInitialized g then ProcessEvent 0x960 eh else (True, eh))
         in if \<not> ready then Inr (0xFFFF, eh1)
            else
              (case load (textureHashTable g) (nat (sint tex + 1)) of
                 Inl f \<Rightarrow> Inl f
               | Inr hashEntry \<Rightarrow>
                   if hashEntry = - 1 then Inr (0xFFFF, eh1)
                   else
                     (case chain_walk (length (hashCollisionData g) + 1) (hashCollisionData g)
                             (GetSearchKey pt fl) hashEntry of
                        Inl f \<Rightarrow> Inl f
                      | Inr sid \<Rightarrow> Inr (sid, eh1)))))"

definition GetNewSurface ::
  "SurfaceGenerator \<Rightarrow> ErrorHandler \<Rightarrow> fault + (16 word \<times> SurfaceGenerator \<times> ErrorHandler)" where
  "GetNewSurface g eh =
     (if uint (nextSurfaceID g) \<ge> maxSurfaces g
      then Inr (0, g, PostEvent 2402 eh)
      else
        (let newSurfaceID = nextSurfaceID g;
             g1 = g\<lparr>nextSurfaceID := nextSurfaceID g + 1\<rparr>
         in case load (surfaceTable g1) (unat newSurfaceID) of
              Inl f \<Rightarrow> Inl f
            | Inr surface \<Rightarrow>
                if IsActive surface then Inr (0, g1, PostEvent 2403 eh)
                else
                  (let g2 = g1\<lparr>surfaceTable := (surfaceTable g1)
                                  [unat newSurfaceID := SetActive True surface]\<rparr>
                   in case InitializeSurface newSurfaceID g2 of
                        Inl f \<Rightarrow> Inl f
                      | Inr g3 \<Rightarrow> Inr (newSurfaceID, g3, eh))))"

definition UpdateSurfaceAlphaFlag ::
  "16 word \<Rightarrow> SurfaceGenerator \<Rightarrow> ErrorHandler \<Rightarrow>
   fault + (bool \<times> SurfaceGenerator \<times> ErrorHandler)" where
  "UpdateSurfaceAlphaFlag sid g eh =
     (if \<not> IsValidSurfaceID g sid then Inr (False, g, PostEvent 2404 eh)
      else
        (case load (surfaceTable g) (unat sid) of
           Inl f \<Rightarrow> Inl f
         | Inr surface \<Rightarrow>
             if \<not> IsActive surface then Inr (False, g, PostEvent 2404 eh)
             else
               (let hasAlpha = (primitiveType surface = 16646)
                in Inr (True,
                        g\<lparr>surfaceTable := (surfaceTable g)[unat sid := SetAlpha hasAlpha surface]\<rparr>,
                        eh))))"

definition SetSurfaceInfo ::
  "16 word \<Rightarrow> 16 word \<Rightarrow> 16 word \<Rightarrow> 16 word \<Rightarrow> SurfaceGenerator \<Rightarrow> ErrorHandler \<Rightarrow>
   fault + (bool \<times> SurfaceGenerator \<times> ErrorHandler)" where
  "SetSurfaceInfo sid pt tex fl g eh =
     (if \<not> IsValidSurfaceID g sid then Inr (False, g, PostEvent 2402 eh)
      else
        (case load (surfaceTable g) (unat sid) of
           Inl f \<Rightarrow> Inl f
         | Inr surface \<Rightarrow>
             if \<not> IsActive surface then Inr (False, g, PostEvent 2404 eh)
             else
               UpdateSurfaceAlphaFlag sid
                 (g\<lparr>surfaceTable := (surfaceTable g)
                      [unat sid := surface\<lparr>primitiveType := pt, textureID := tex, flags := fl\<rparr>]\<rparr>)
                 eh))"

text \<open>
  The first loop of \<^verbatim>\<open>FindFreeHashEntry\<close>: a \<^verbatim>\<open>uint16_t\<close> counter, incremented with
  wrap-around and compared with the size of the vector.  With more than 65535 entries
  the comparison never fails; after 65536 rounds every counter value has been tried, and
  the source goes on for ever, which is when the fuel (started at 65536) runs out.
\<close>

fun find_free_from :: "nat \<Rightarrow> SurfaceHashEntry list \<Rightarrow> 16 word \<Rightarrow> fault + 16 word option" where
  "find_free_from 0 hcd i = Inl Diverges"
| "find_free_from (Suc fuel) hcd i =
     (if unat i < length hcd
      then (if surfaceID (hcd ! unat i) = 0 then Inr (Some i)
            else find_free_from fuel hcd (i + 1))
      else Inr None)"

text \<open>The second loop, over the indices below \<^verbatim>\<open>nextHashEntry_\<close>.\<close>

fun find_free_below :: "SurfaceHashEntry list \<Rightarrow> nat list \<Rightarrow> fault + 16 word option" where
  "find_free_below hcd [] = Inr None"
| "find_free_below hcd (i # ids) =
     (case load hcd i of
        Inl f \<Rightarrow> Inl f
      | Inr e \<Rightarrow> if surfaceID e = 0 then Inr (Some (of_nat i)) else find_free_below hcd ids)"

definition FindFreeHashEntry :: "SurfaceGenerator \<Rightarrow> fault + (16 word \<times> SurfaceGenerator)" where
  "FindFreeHashEntry g =
     (case find_free_from 65536 (hashCollisionData g) (nextHashEntry g) of
        Inl f \<Rightarrow> Inl f
      | Inr (Some i) \<Rightarrow> Inr (i, g\<lparr>nextHashEntry := i + 1\<rparr>)
      | Inr None \<Rightarrow>
          (case find_free_below (hashCollisionData g) [0 ..< unat (nextHashEntry g)] of
             Inl f \<Rightarrow> Inl f
           | Inr (Some i) \<Rightarrow> Inr (i, g\<lparr>nextHashEntry := i + 1\<rparr>)
           | Inr None \<Rightarrow> Inr (0xFFFF, g)))"

definition AddSurfaceHash ::
  "16 word \<Rightarrow> SurfaceGenerator \<Rightarrow> ErrorHandler \<Rightarrow>
   fault + (bool \<times> SurfaceGenerator \<times> ErrorHandler)" where
  "AddSurfaceHash sid g eh =
     (if \<not> IsValidSurfaceID g sid then Inr (False, g, eh)
      else
        (case load (surfaceTable g) (unat sid) of
           Inl f \<Rightarrow> Inl f
         | Inr surface \<Rightarrow>
             (let tex = textureID surface
              in if \<not> IsValidTextureID g tex then Inr (False, g, eh)
                 else
                   (case FindFreeHashEntry g of
                      Inl f \<Rightarrow> Inl f
                    | Inr (hashEntryIndex, g1) \<Rightarrow>
                        if hashEntryIndex = 0xFFFF then Inr (False, g1, PostEvent 0x6A eh)
                        else
                          (case load (hashCollisionData g1) (unat hashEntryIndex) of
                             Inl f \<Rightarrow> Inl f
                           | Inr hashEntry \<Rightarrow>
                               (case load (textureHashTable g1) (nat (sint tex + 1)) of
                                  Inl f \<Rightarrow> Inl f
                                | Inr currentFirst \<Rightarrow>
                                    Inr (True,
                                         g1\<lparr>hashCollisionData := (hashCollisionData g1)
                                               [unat hashEntryIndex :=
                                                  hashEntry\<lparr>searchKey :=
                                                               GetSearchKey (primitiveType surface)
                                                                 (flags surface),
                                                             surfaceID := sid,
                                                             nextEntry := currentFirst\<rparr>],
                                             textureHashTable := (textureHashTable g1)
                                               [nat (sint tex + 1) := uint hashEntryIndex]\<rparr>,
                                         eh)))))))"

definition GetOrCreateSurface ::
  "16 word \<Rightarrow> 16 word \<Rightarrow> 16 word \<Rightarrow> SurfaceGenerator \<Rightarrow> ErrorHandler \<Rightarrow>
   fault + (16 word \<times> SurfaceGenerator \<times> ErrorHandler)" where
  "GetOrCreateSurface pt tex fl g eh =
     (let (ready, eh0) = (if \<not> systemInitialized g then ProcessEvent 0x960 eh else (True, eh))
      in if \<not> ready then Inr (0, g, eh0)
         else
           (case GetSurfaceHash pt tex fl g eh0 of
              Inl f \<Rightarrow> Inl f
            | Inr (found, eh1) \<Rightarrow>
                if found = 0xFFFF
                then
                  (case GetNewSurface g eh1 of
                     Inl f \<Rightarrow> Inl f
                   | Inr (sid, g1, eh2) \<Rightarrow>
                       if HasLastError eh2 then Inr (0, g1, eh2)
                       else
                         (case SetSurfaceInfo sid pt tex fl g1 eh2 of
                            Inl f \<Rightarrow> Inl f
                          | Inr (ok, g2, eh3) \<Rightarrow>
                              if \<not> ok then Inr (0, g2, eh3)
                              else
                                (case AddSurfaceHash sid g2 eh3 of
                                   Inl f \<Rightarrow> Inl f
                                 | Inr (ok', g3, eh4) \<Rightarrow>
                                     if \<not> ok' then Inr (0, g3, eh4) else Inr (sid, g3, eh4))))
                else
                  (case UpdateSurfaceAlphaFlag found g eh1 of
                     Inl f \<Rightarrow> Inl f
                   | Inr (ok, g1, eh2) \<Rightarrow>
                       if \<not> ok then Inr (0, g1, eh2) else Inr (found, g1, eh2))))"

text \<open>
  A surface key is the triple (primitive type, texture id, flags).  \<open>run_calls\<close> makes
  one \<^verbatim>\<open>GetOrCreateSurface\<close> call per key, in order, and collects the returned ids.
\<close>

type_synonym surface_key = "16 word \<times> 16 word \<times> 16 word"

fun run_calls ::
  "surface_key list \<Rightarrow> SurfaceGenerator \<Rightarrow> ErrorHandler \<Rightarrow>
   fault + (16 word list \<times> SurfaceGenerator \<times> ErrorHandler)" where
  "run_calls [] g eh = Inr ([], g, eh)"
| "run_calls ((pt, tex, fl) # ks) g eh =
     (case GetOrCreateSurface pt tex fl g eh of
        Inl f \<Rightarrow> Inl f
      | Inr (sid, g', eh') \<Rightarrow>
          (case run_calls ks g' eh' of
             Inl f \<Rightarrow> Inl f
           | Inr (sids, g'', eh'') \<Rightarrow> Inr (sid # sids, g'', eh'')))"

text \<open>
  The calls made on a new generator initialised with the default bounds, with no event
  pending: the ids returned and the event codes posted.
\<close>

definition default_calls :: "surface_key list \<Rightarrow> fault + (16 word list \<times> nat list)" where
  "default_calls keys =
     (case Initialize 1000 2000 SurfaceGenerator_new ErrorHandler_initial of
        Inl f \<Rightarrow> Inl f
      | Inr (ok, g, eh) \<Rightarrow>
          (case run_calls keys g eh of
             Inl f \<Rightarrow> Inl f
           | Inr (sids, g', eh') \<Rightarrow> Inr (sids, posted eh')))"

section \<open>Surface table: states and keys used in the proofs\<close>

text \<open>The generator that \<^verbatim>\<open>Initialize(1000, 2000)\<close> leaves behind.\<close>

definition default_generator :: SurfaceGenerator where
  "default_generator =
     \<lparr>textureHashTable = replicate 1000 (- 1),
      hashCollisionData = replicate 4000 SurfaceHashEntry_new,
      surfaceTable = replicate 2000 SurfaceTableEntry_new,
      maxTextures = 1000, maxSurfaces = 2000, systemInitialized = True,
      nextSurfaceID = 1, nextHashEntry = 0\<rparr>"

text \<open>The texture id and the search key of a surface key.\<close>

definition tex_of :: "surface_key \<Rightarrow> 16 word" where
  "tex_of k = fst (snd k)"

definition key_of :: "surface_key \<Rightarrow> 32 word" where
  "key_of k = GetSearchKey (fst k) (snd (snd k))"

text \<open>
  The state of the default-sized table after the surfaces of \<open>keys\<close> have been created,
  one per key and in this order, as far as the proofs below need it: surface \<open>i + 1\<close>
  and hash entry \<open>i\<close> belong to key \<open>i\<close>; every chain link points to an earlier entry
  of the same texture or is \<open>-1\<close>; the hash entries and surface slots beyond are unused.
\<close>

definition table_inv :: "SurfaceGenerator \<Rightarrow> surface_key list \<Rightarrow> bool" where
  "table_inv g keys \<longleftrightarrow>
     maxTextures g = 1000 \<and> maxSurfaces g = 2000 \<and> systemInitialized g \<and>
     length (textureHashTable g) = 1000 \<and>
     length (hashCollisionData g) = 4000 \<and>
     length (surfaceTable g) = 2000 \<and>
     length keys \<le> 1999 \<and>
     nextSurfaceID g = of_nat (length keys + 1) \<and>
     nextHashEntry g = of_nat (length keys) \<and>
     (\<forall>i < length keys.
        searchKey (hashCollisionData g ! i) = key_of (keys ! i) \<and>
        (nextEntry (hashCollisionData g ! i) = - 1 \<or>
         0 \<le> nextEntry (hashCollisionData g ! i) \<and>
         nextEntry (hashCollisionData g ! i) < int i \<and>
         tex_of (keys ! nat (nextEntry (hashCollisionData g ! i))) = tex_of (keys ! i))) \<and>
     (\<forall>i. length keys \<le> i \<and> i < 4000 \<longrightarrow> surfaceID (hashCollisionData g ! i) = 0) \<and>
     (\<forall>j < 1000.
        textureHashTable g ! j = - 1 \<or>
        0 \<le> textureHashTable g ! j \<and>
        textureHashTable g ! j < int (length keys) \<and>
        int j = sint (tex_of (keys ! nat (textureHashTable g ! j))) + 1) \<and>
     (\<forall>i. length keys < i \<and> i < 2000 \<longrightarrow> surfaceTable g ! i = SurfaceTableEntry_new)"

text \<open>The table after the surface of key \<open>k\<close> has been created as surface \<open>n + 1\<close>.\<close>

definition inserted :: "SurfaceGenerator \<Rightarrow> nat \<Rightarrow> surface_key \<Rightarrow> SurfaceGenerator" where
  "inserted g n k =
     g\<lparr>nextSurfaceID := of_nat (n + 1) + 1,
       surfaceTable := (surfaceTable g)
         [n + 1 := \<lparr>textureID = tex_of k, primitiveType = fst k, flags = snd (snd k),
                     status = (if fst k = 16646 then 3 else 1)\<rparr>],
       nextHashEntry := of_nat n + 1,
       hashCollisionData := (hashCollisionData g)
         [n := (hashCollisionData g ! n)
                 \<lparr>searchKey := key_of k, surfaceID := of_nat (n + 1),
                  nextEntry := textureHashTable g ! nat (sint (tex_of k) + 1)\<rparr>],
       textureHashTable := (textureHashTable g)[nat (sint (tex_of k) + 1) := int n]\<rparr>"

text \<open>\<open>n\<close> distinct keys: triangle strips of texture 0 with the flags 0, 1, 2 and so on.\<close>

definition surface_test_keys :: "nat \<Rightarrow> surface_key list" where
  "surface_test_keys n = map (\<lambda>i. (TriangleStrip, 0, of_nat i)) [0 ..< n]"

section \<open>Concrete inputs\<close>

text \<open>
  A 32-byte file: the full header \<^verbatim>\<open>3DGM\<close> with version 1 and info 0, a chunk with the
  unknown id \<^verbatim>\<open>0xDEADBEEF\<close> and four bytes of data, and an \<^verbatim>\<open>End \<close> chunk of size 0.
\<close>

definition unknown_then_end :: "8 word list" where
  "unknown_then_end =
     [0x33, 0x44, 0x47, 0x4D,  0x01, 0x00, 0x00, 0x00,  0x00, 0x00, 0x00, 0x00,
      0xEF, 0xBE, 0xAD, 0xDE,  0x04, 0x00, 0x00, 0x00,  0x00, 0x00, 0x00, 0x00,
      0x45, 0x6E, 0x64, 0x20,  0x00, 0x00, 0x00, 0x00]"

text \<open>
  The primitive tokens of a \<^verbatim>\<open>Prim\<close> chunk holding one triangle strip: the type token
  \<^verbatim>\<open>TriangleStrip\<close>, the count 4, the indices 0, 1, 2, 3 and the end marker.
\<close>

definition strip_scenario :: "16 word list" where
  "strip_scenario = [16646, 4, 0, 1, 2, 3, 0x6000]"

section \<open>Properties of the byte-order helpers\<close>

lemma byte_masks:
  "(0xFF :: 32 word) = mask 8"
  "(0xFF00 :: 32 word) = push_bit 8 (mask 8)"
  "(0xFF0000 :: 32 word) = push_bit 16 (mask 8)"
  "(0xFF000000 :: 32 word) = push_bit 24 (mask 8)"
  by (simp_all add: mask_eq_exp_minus_1)

lemma bit32_bound: "bit (v :: 32 word) m \<Longrightarrow> m < 32"
  using bit_imp_le_length [of v m] by simp

lemma ApplyComplexByteSwap_eq: "ApplyComplexByteSwap v = LittleToBigEndian32 v"
proof (rule bit_word_eqI)
  fix n :: nat
  assume "n < LENGTH(32)"
  then have n: "n < 32" by simp
  have hi: "bit v (24 + n) \<Longrightarrow> n < 8"
    using bit32_bound [of v "24 + n"] by simp
  show "bit (ApplyComplexByteSwap v) n = bit (LittleToBigEndian32 v) n"
    unfolding ApplyComplexByteSwap_def LittleToBigEndian32_def byte_masks
    using n hi by (cases "n < 8"; cases "n < 16"; cases "n < 24") (auto simp add: bit_simps)
qed

lemma LittleToBigEndian32_involution: "LittleToBigEndian32 (LittleToBigEndian32 v) = v"
proof (rule bit_word_eqI)
  fix n :: nat
  assume "n < LENGTH(32)"
  then have n: "n < 32" by simp
  consider "n < 8" | "8 \<le> n" "n < 16" | "16 \<le> n" "n < 24" | "24 \<le> n" "n < 32"
    using n by linarith
  then show "bit (LittleToBigEndian32 (LittleToBigEndian32 v)) n = bit v n"
  proof cases
    case 1
    then show ?thesis
      unfolding LittleToBigEndian32_def byte_masks by (auto simp add: bit_simps)
  next
    case 2
    then show ?thesis
      unfolding LittleToBigEndian32_def byte_masks by (auto simp add: bit_simps)
  next
    case 3
    then show ?thesis
      unfolding LittleToBigEndian32_def byte_masks by (auto simp add: bit_simps)
  next
    case 4
    then show ?thesis
      unfolding LittleToBigEndian32_def byte_masks by (auto simp add: bit_simps)
  qed
qed

text \<open>
  Claim C7.  For every 32-bit value, the complex swap of \<^verbatim>\<open>ApplyComplexByteSwap\<close> equals
  the plain byte reversal \<^verbatim>\<open>LittleToBigEndian32\<close>, applying it twice gives the value back,
  and the five validation vectors of \<^verbatim>\<open>ByteSwap::ValidateAlgorithms\<close> hold.
\<close>

theorem complex_swap32_is_swap32_involution:
  "ApplyComplexByteSwap v = LittleToBigEndian32 v \<and>
   ApplyComplexByteSwap (ApplyComplexByteSwap v) = v \<and>
   ApplyComplexByteSwap 0x12345678 = 0x78563412 \<and>
   ApplyComplexByteSwap 0x01020304 = 0x04030201 \<and>
   ApplyComplexByteSwap 0xFF00FF00 = 0x00FF00FF \<and>
   ApplyComplexByteSwap 0x00000000 = 0x00000000 \<and>
   ApplyComplexByteSwap 0xFFFFFFFF = 0xFFFFFFFF"
proof -
  have "ApplyComplexByteSwap (ApplyComplexByteSwap v) = v"
    by (simp only: ApplyComplexByteSwap_eq LittleToBigEndian32_involution)
  moreover have "ApplyComplexByteSwap 0x12345678 = 0x78563412"
    "ApplyComplexByteSwap 0x01020304 = 0x04030201"
    "ApplyComplexByteSwap 0xFF00FF00 = 0x00FF00FF"
    "ApplyComplexByteSwap 0x00000000 = 0x00000000"
    "ApplyComplexByteSwap 0xFFFFFFFF = 0xFFFFFFFF"
    by (simp_all add: ApplyComplexByteSwap_def)
  ultimately show ?thesis
    using ApplyComplexByteSwap_eq [of v] by blast
qed

section \<open>Properties of the header discriminator\<close>

lemma DetectHeader_Some:
  assumes "4 \<le> length data" and "ReadLittleEndian32 data 0 = Inr w"
  shows "DetectHeader (Some data) eh =
     (if w = 0x4D474433
      then (if length data < 12
            then Inr (FileHeader_new\<lparr>type_fh := NoHeader\<rparr>, PostEvent 0x6A eh)
            else
              (case ReadLittleEndian32 data 4 of
                 Inl f \<Rightarrow> Inl f
               | Inr v \<Rightarrow>
                   (case ReadLittleEndian32 data 8 of
                      Inl f \<Rightarrow> Inl f
                    | Inr i \<Rightarrow>
                        Inr (\<lparr>type_fh = FullHeader, magic = w, version = v,
                              info = i, headerSize = 12, chunkOffset = 12\<rparr>, eh))))
      else if IsValidVersionRange w
      then Inr (\<lparr>type_fh = VersionOnly, magic = 0, version = w,
                 info = 0, headerSize = 4, chunkOffset = 4\<rparr>, eh)
      else Inr (\<lparr>type_fh = NoHeader, magic = 0, version = 0,
                 info = 0, headerSize = 0, chunkOffset = 0\<rparr>, eh))"
  using assms by (simp add: DetectHeader_def DetectHeaderType_def)

lemma ReadLittleEndian32_in_bounds:
  "off + 4 \<le> length data \<Longrightarrow> \<exists>w. ReadLittleEndian32 data off = Inr w"
  by (simp add: ReadLittleEndian32_def)

text \<open>
  Claim C8.  For a buffer of at least 4 bytes whose first four bytes read little-endian
  are \<open>w\<close>, \<^verbatim>\<open>DetectHeader\<close> returns a header whose type, header size and chunk offset
  are a function of \<open>w\<close> and of the test \<open>12 \<le> length\<close> alone: the magic with at least
  12 bytes gives \<open>FullHeader\<close> with sizes 12; a value in the version range gives
  \<open>VersionOnly\<close> with \<open>version = w\<close> and sizes 4; every other value gives \<open>NoHeader\<close>
  with chunk offset 0.
\<close>

theorem DetectHeader_classification:
  assumes "4 \<le> length data" and "ReadLittleEndian32 data 0 = Inr w"
  shows "\<exists>h eh'. DetectHeader (Some data) eh = Inr (h, eh') \<and>
     (type_fh h, headerSize h, chunkOffset h) =
       (if w = 0x4D474433
        then (if 12 \<le> length data then (FullHeader, 12, 12) else (NoHeader, 0, 0))
        else if 0x01000100 \<le> w \<and> w \<le> 0x10000100 then (VersionOnly, 4, 4)
        else (NoHeader, 0, 0)) \<and>
     (w = 0x4D474433 \<and> 12 \<le> length data \<longrightarrow>
        type_fh h = FullHeader \<and> headerSize h = 12 \<and> chunkOffset h = 12) \<and>
     (0x01000100 \<le> w \<and> w \<le> 0x10000100 \<longrightarrow>
        type_fh h = VersionOnly \<and> version h = w \<and> headerSize h = 4 \<and> chunkOffset h = 4) \<and>
     (w \<noteq> 0x4D474433 \<and> \<not> (0x01000100 \<le> w \<and> w \<le> 0x10000100) \<longrightarrow>
        type_fh h = NoHeader \<and> chunkOffset h = 0)"
proof (cases "w = 0x4D474433")
  case magic: True
  show ?thesis
  proof (cases "length data < 12")
    case True
    with magic show ?thesis
      by (simp add: DetectHeader_Some [OF assms] FileHeader_new_def)
  next
    case False
    then obtain v i where "ReadLittleEndian32 data 4 = Inr v" "ReadLittleEndian32 data 8 = Inr i"
      using ReadLittleEndian32_in_bounds [of 4 data] ReadLittleEndian32_in_bounds [of 8 data]
      by auto
    with magic False show ?thesis
      by (simp add: DetectHeader_Some [OF assms])
  qed
next
  case False
  then show ?thesis
    by (simp add: DetectHeader_Some [OF assms] IsValidVersionRange_def)
qed

theorem DetectHeader_classification_witness:
  "\<exists>h eh'. DetectHeader (Some [0x00, 0x01, 0x00, 0x04]) ErrorHandler_initial = Inr (h, eh') \<and>
     type_fh h = VersionOnly \<and> version h = 0x04000100 \<and>
     headerSize h = 4 \<and> chunkOffset h = 4"
proof -
  have len: "4 \<le> length [0x00, 0x01, 0x00, 0x04 :: 8 word]" by simp
  have w: "ReadLittleEndian32 [0x00, 0x01, 0x00, 0x04] 0 = Inr 0x04000100"
    by (simp add: ReadLittleEndian32_def)
  from DetectHeader_classification [OF len w, of ErrorHandler_initial]
  obtain h eh' where
    "DetectHeader (Some [0x00, 0x01, 0x00, 0x04]) ErrorHandler_initial = Inr (h, eh')"
    "(0x01000100 :: 32 word) \<le> 0x04000100 \<and> (0x04000100 :: 32 word) \<le> 0x10000100 \<longrightarrow>
       type_fh h = VersionOnly \<and> version h = 0x04000100 \<and> headerSize h = 4 \<and> chunkOffset h = 4"
    by blast
  then show ?thesis by simp
qed

section \<open>Properties of the chunk scanner\<close>

lemma unknown_then_end_header:
  "DetectHeader (Some unknown_then_end) eh =
     Inr (\<lparr>type_fh = FullHeader, magic = 0x4D474433, version = 1, info = 0,
           headerSize = 12, chunkOffset = 12\<rparr>, eh)"
  by (simp add: DetectHeader_def unknown_then_end_def ReadLittleEndian32_def
      DetectHeaderType_def)

lemma unknown_then_end_read:
  "ReadNextChunkHeader
     \<lparr>fileData = Some unknown_then_end, fileSize = 32, currentOffset = 12,
      discoveredChunks = []\<rparr> header eh =
   Inr (False, \<lparr>rawID = 0xDEADBEEF, size_ch = 4, type_ch = Unknown\<rparr>, eh)"
  by (simp add: ReadNextChunkHeader_def unknown_then_end_def ReadLittleEndian32_def
      ChunkHeader_of_def GetChunkTypeFromRawID_def GetTotalSize_def IsValid_ch_def)

lemma unknown_then_end_scan:
  "ScanAllChunks
     \<lparr>fileData = Some unknown_then_end, fileSize = 32, currentOffset = 12,
      discoveredChunks = []\<rparr> eh =
   Inr (False,
        \<lparr>fileData = Some unknown_then_end, fileSize = 32, currentOffset = 12,
         discoveredChunks = []\<rparr>, eh)"
  by (simp add: ScanAllChunks_def Reset_def unknown_then_end_read)

text \<open>
  Claim C2, at the file \<open>unknown_then_end\<close>.  \<^verbatim>\<open>ReadNextChunkHeader\<close> returns
  \<^verbatim>\<open>header.IsValid()\<close>, which is false for an unknown id, so \<^verbatim>\<open>ScanAllChunks\<close> stops at
  the unknown chunk with nothing discovered and never reaches the \<^verbatim>\<open>End \<close> chunk;
  \<^verbatim>\<open>ParseBuffer\<close> then fails with event \<^verbatim>\<open>0x6A\<close>, whatever the later steps would do.
\<close>

theorem unknown_chunk_aborts_decode:
  "ParseBuffer steps56 (Some unknown_then_end) ErrorHandler_initial =
     Inr (False, \<lparr>lastProcessedEvent = True, posted = [0x6A]\<rparr>)"
proof -
  have len: "length unknown_then_end = 32"
    by (simp add: unknown_then_end_def)
  show ?thesis
    by (simp add: ParseBuffer_def len unknown_then_end_header ValidateHeader_def
        ChunkReader_new_def unknown_then_end_scan PostEvent_def ErrorHandler_initial_def)
qed

section \<open>Properties of the vertex codecs\<close>

lemma copy_words_closed:
  "p + length ws \<le> length buf \<Longrightarrow>
   copy_words buf p ws = Inr (take p buf @ ws @ drop (p + length ws) buf)"
proof (induction ws arbitrary: buf p)
  case Nil
  then show ?case by simp
next
  case (Cons w ws)
  then have p: "p < length buf" by simp
  have step: "store buf p w = Inr (buf[p := w])"
    using p by (simp add: store_def)
  have "copy_words (buf[p := w]) (p + 1) ws =
        Inr (take (p + 1) (buf[p := w]) @ ws @ drop (p + 1 + length ws) (buf[p := w]))"
    using Cons.prems by (intro Cons.IH) simp
  moreover have "take (p + 1) (buf[p := w]) = take p buf @ [w]"
    using p by (simp add: take_Suc_conv_app_nth)
  moreover have "drop (p + 1 + length ws) (buf[p := w]) = drop (p + 1 + length ws) buf"
    by simp
  ultimately show ?case
    using step by simp
qed

lemma length_Sub4F2950Rearrangement [simp]: "length (Sub4F2950Rearrangement input) = 8"
  by (simp add: Sub4F2950Rearrangement_def)

lemma decrunch_loop_closed:
  "outputPtr + 8 * k \<le> length buf \<Longrightarrow>
   decrunch_loop k i u inputPtr outputPtr buf =
     Inr (inputPtr + 6 * k, outputPtr + 8 * k,
          take outputPtr buf @
          concat (map (\<lambda>j. Sub4F2950Rearrangement (u (i + j))) [0..<k]) @
          drop (outputPtr + 8 * k) buf)"
proof (induction k arbitrary: i inputPtr outputPtr buf)
  case 0
  then show ?case by simp
next
  case (Suc k)
  let ?S = "Sub4F2950Rearrangement (u i)"
  let ?buf' = "take outputPtr buf @ ?S @ drop (outputPtr + 8) buf"
  have cw: "copy_words buf outputPtr ?S = Inr ?buf'"
    using Suc.prems copy_words_closed [of outputPtr ?S buf] by simp
  have len: "length ?buf' = length buf"
    using Suc.prems by simp
  have ih: "decrunch_loop k (i + 1) u (inputPtr + 6) (outputPtr + 8) ?buf' =
     Inr (inputPtr + 6 + 6 * k, outputPtr + 8 + 8 * k,
          take (outputPtr + 8) ?buf' @
          concat (map (\<lambda>j. Sub4F2950Rearrangement (u (i + 1 + j))) [0..<k]) @
          drop (outputPtr + 8 + 8 * k) ?buf')"
    using Suc.prems len by (intro Suc.IH) simp
  have tk: "take (outputPtr + 8) ?buf' = take outputPtr buf @ ?S"
    using Suc.prems by simp
  have dr: "drop (outputPtr + 8 + 8 * k) ?buf' = drop (outputPtr + 8 * Suc k) buf"
    using Suc.prems by (simp add: algebra_simps)
  have mp: "concat (map (\<lambda>j. Sub4F2950Rearrangement (u (i + j))) [0..<Suc k]) =
            ?S @ concat (map (\<lambda>j. Sub4F2950Rearrangement (u (i + 1 + j))) [0..<k])"
    by (simp add: upt_conv_Cons map_Suc_upt [symmetric] comp_def del: upt_Suc)
  have unfold: "decrunch_loop (Suc k) i u inputPtr outputPtr buf =
      decrunch_loop k (i + 1) u (inputPtr + 2 + 2 + 2) (outputPtr + 8) ?buf'"
    by (simp only: decrunch_loop.simps Let_def cw sum.case)
  have six: "inputPtr + 2 + 2 + 2 = inputPtr + 6"
    by simp
  have "decrunch_loop (Suc k) i u inputPtr outputPtr buf =
     Inr (inputPtr + 6 + 6 * k, outputPtr + 8 + 8 * k,
          (take outputPtr buf @ ?S) @
          concat (map (\<lambda>j. Sub4F2950Rearrangement (u (i + 1 + j))) [0..<k]) @
          drop (outputPtr + 8 * Suc k) buf)"
    by (simp only: unfold six ih tk dr)
  also have "\<dots> = Inr (inputPtr + 6 * Suc k, outputPtr + 8 * Suc k,
          take outputPtr buf @
          concat (map (\<lambda>j. Sub4F2950Rearrangement (u (i + j))) [0..<Suc k]) @
          drop (outputPtr + 8 * Suc k) buf)"
    by (simp only: mp) simp
  finally show ?case .
qed

lemma concat_map_nth8:
  assumes "\<And>j. length (g j) = 8" and "i < n" and "l < 8"
  shows "concat (map g [0..<n]) ! (8 * i + l) = g i ! l"
  using assms(2)
proof (induction n)
  case 0
  then show ?case by simp
next
  case (Suc n)
  have len: "length (concat (map g [0..<n])) = 8 * n"
    by (induction n) (simp_all add: assms(1))
  show ?case
  proof (cases "i < n")
    case True
    then have "8 * i + l < 8 * n" using assms(3) by simp
    then show ?thesis
      using Suc.IH [OF True] by (simp add: nth_append len)
  next
    case False
    then have "i = n" using Suc.prems by simp
    then show ?thesis
      using assms(3) by (simp add: nth_append len)
  qed
qed

lemma length_concat_map8:
  "(\<And>j. length (g j) = 8) \<Longrightarrow> length (concat (map g [0..<n])) = 8 * n"
  by (induction n) simp_all

text \<open>The run of the decoder on a buffer with room for the terminator.\<close>

lemma DecrunchDotsVertices_run:
  assumes "0 < n" and "8 * n + 1 \<le> length out"
  shows "DecrunchDotsVertices (Some d) u (Some out) n eh =
     Inr (True,
          Some ((concat (map (\<lambda>j. Sub4F2950Rearrangement (u j)) [0..<n]) @ drop (8 * n) out)
                  [8 * n := GetVertexTerminator]),
          eh)"
proof -
  have loop: "decrunch_loop n 0 u 24 0 out =
     Inr (24 + 6 * n, 0 + 8 * n,
          take 0 out @ concat (map (\<lambda>j. Sub4F2950Rearrangement (u (0 + j))) [0..<n]) @
          drop (0 + 8 * n) out)"
    using assms(2) by (intro decrunch_loop_closed) simp
  have len: "length (concat (map (\<lambda>j. Sub4F2950Rearrangement (u j)) [0..<n]) @ drop (8 * n) out)
             = length out"
    using assms(2) by (simp add: length_concat_map8)
  show ?thesis
    using assms loop len by (simp add: DecrunchDotsVertices_def store_def)
qed

text \<open>On a buffer of exactly \<open>8 * n\<close> words the terminator is stored outside it.\<close>

lemma DecrunchDotsVertices_overrun:
  assumes "0 < n" and "length out = 8 * n"
  shows "DecrunchDotsVertices (Some d) u (Some out) n eh = Inl OutOfBounds"
proof -
  have loop: "decrunch_loop n 0 u 24 0 out =
     Inr (24 + 6 * n, 0 + 8 * n,
          take 0 out @ concat (map (\<lambda>j. Sub4F2950Rearrangement (u (0 + j))) [0..<n]) @
          drop (0 + 8 * n) out)"
    using assms(2) by (intro decrunch_loop_closed) simp
  show ?thesis
    using assms loop by (simp add: DecrunchDotsVertices_def store_def length_concat_map8)
qed

subsection \<open>The packed codecs\<close>

lemma load32_in_bounds:
  "base + 4 * k + 4 \<le> length data \<Longrightarrow> \<exists>w. load32 data base k = Inr w"
  by (simp add: load32_def ReadLittleEndian32_def)

lemma store_in_bounds: "i < length buf \<Longrightarrow> store buf i v = Inr (buf[i := v])"
  by (simp add: store_def)

lemma packed_loop_runs:
  "v4 + 8 * k \<le> length buf \<Longrightarrow> base + 4 * (p + 3 * k) \<le> length data \<Longrightarrow>
   \<exists>buf'. packed_loop k to_float data base p v4 buf = Inr (p + 3 * k, v4 + 8 * k, buf') \<and>
          length buf' = length buf"
proof (induction k arbitrary: p v4 buf)
  case 0
  then show ?case by simp
next
  case (Suc k)
  obtain xw yw zw where ld: "load32 data base p = Inr xw" "load32 data base (p + 1) = Inr yw"
    "load32 data base (p + 2) = Inr zw"
    using Suc.prems(2) load32_in_bounds [of base p data] load32_in_bounds [of base "p + 1" data]
      load32_in_bounds [of base "p + 2" data]
    by auto
  let ?b1 = "buf[v4 := to_float (ApplyComplexByteSwap xw)]"
  let ?b2 = "?b1[v4 + 1 := to_float (ApplyComplexByteSwap yw)]"
  let ?b3 = "?b2[v4 + 2 := to_float (ApplyComplexByteSwap zw)]"
  have st: "store buf v4 (to_float (ApplyComplexByteSwap xw)) = Inr ?b1"
    "store ?b1 (v4 + 1) (to_float (ApplyComplexByteSwap yw)) = Inr ?b2"
    "store ?b2 (v4 + 2) (to_float (ApplyComplexByteSwap zw)) = Inr ?b3"
    using Suc.prems(1) by (simp_all add: store_in_bounds)
  have "\<exists>buf'. packed_loop k to_float data base (p + 3) (v4 + 8) ?b3 =
          Inr (p + 3 + 3 * k, v4 + 8 + 8 * k, buf') \<and> length buf' = length ?b3"
    using Suc.prems by (intro Suc.IH) simp_all
  then obtain buf' where
    ih: "packed_loop k to_float data base (p + 3) (v4 + 8) ?b3 =
          Inr (p + 3 + 3 * k, v4 + 8 + 8 * k, buf')"
    and len: "length buf' = length buf"
    by auto
  have idx: "p + 3 - 2 = p + 1" "p + 3 - 1 = p + 2" "v4 + 8 - 7 = v4 + 1" "v4 + 8 - 6 = v4 + 2"
    by simp_all
  have "packed_loop (Suc k) to_float data base p v4 buf =
        Inr (p + 3 + 3 * k, v4 + 8 + 8 * k, buf')"
    by (simp only: packed_loop.simps Let_def idx ld st ih sum.case)
  then show ?case
    using len by simp
qed

lemma packed3_loop_runs:
  "v4 + 8 * k \<le> length buf \<Longrightarrow> base + 4 * (p + 3 * k) \<le> length data \<Longrightarrow>
   \<exists>buf'. packed3_loop k to_float data base p v4 buf = Inr (p + 3 * k, v4 + 8 * k, buf') \<and>
          length buf' = length buf"
proof (induction k arbitrary: p v4 buf)
  case 0
  then show ?case by simp
next
  case (Suc k)
  obtain xw yw zw where ld: "load32 data base p = Inr xw" "load32 data base (p + 1) = Inr yw"
    "load32 data base (p + 2) = Inr zw"
    using Suc.prems(2) load32_in_bounds [of base p data] load32_in_bounds [of base "p + 1" data]
      load32_in_bounds [of base "p + 2" data]
    by auto
  let ?b1 = "buf[v4 := to_float (ApplyComplexByteSwap xw)]"
  let ?b2 = "?b1[v4 + 1 := to_float (ApplyComplexByteSwap yw)]"
  let ?b3 = "?b2[v4 + 2 := to_float (ApplyComplexByteSwap zw)]"
  have st: "store buf v4 (to_float (ApplyComplexByteSwap xw)) = Inr ?b1"
    "store ?b1 (v4 + 1) (to_float (ApplyComplexByteSwap yw)) = Inr ?b2"
    "store ?b2 (v4 + 2) (to_float (ApplyComplexByteSwap zw)) = Inr ?b3"
    using Suc.prems(1) by (simp_all add: store_in_bounds)
  have "\<exists>buf'. packed3_loop k to_float data base (p + 3) (v4 + 8) ?b3 =
          Inr (p + 3 + 3 * k, v4 + 8 + 8 * k, buf') \<and> length buf' = length ?b3"
    using Suc.prems by (intro Suc.IH) simp_all
  then obtain buf' where
    ih: "packed3_loop k to_float data base (p + 3) (v4 + 8) ?b3 =
          Inr (p + 3 + 3 * k, v4 + 8 + 8 * k, buf')"
    and len: "length buf' = length buf"
    by auto
  have "packed3_loop (Suc k) to_float data base p v4 buf =
        Inr (p + 3 + 3 * k, v4 + 8 + 8 * k, buf')"
    by (simp only: packed3_loop.simps ld st ih sum.case)
  then show ?case
    using len by simp
qed

text \<open>
  Given enough input, both packed codecs store their terminator at index \<open>8 * n\<close>: outside
  a buffer of \<open>8 * n\<close> floats.
\<close>

lemma ConvertPackedToFloatVertices_overrun:
  assumes "0 < n" and "length out = 8 * n" and "base + 12 * n \<le> length data"
  shows "ConvertPackedToFloatVertices to_float (Some data) base (Some out) n eh = Inl OutOfBounds"
proof -
  obtain buf' where "packed_loop n to_float data base 0 0 out = Inr (0 + 3 * n, 0 + 8 * n, buf')"
    and "length buf' = length out"
    using assms packed_loop_runs [of 0 n out base 0 data to_float] by auto
  then show ?thesis
    using assms by (simp add: ConvertPackedToFloatVertices_def store_def)
qed

lemma ConvertPackedToFloatVertices3Component_overrun:
  assumes "0 < n" and "length out = 8 * n" and "base + 12 * n \<le> length data"
  shows "ConvertPackedToFloatVertices3Component to_float (Some data) base (Some out) n eh =
         Inl OutOfBounds"
proof -
  obtain buf' where "packed3_loop n to_float data base 0 0 out = Inr (0 + 3 * n, 0 + 8 * n, buf')"
    and "length buf' = length out"
    using assms packed3_loop_runs [of 0 n out base 0 data to_float] by auto
  then show ?thesis
    using assms by (simp add: ConvertPackedToFloatVertices3Component_def store_def)
qed

subsection \<open>The chunk processors on the buffer they allocate\<close>

lemma length_resize: "length (resize n x v) = n"
  by (simp add: resize_def)

lemma word32_payload:
  fixes s :: "32 word"
  assumes "unat s = h + m * n"
  shows "\<not> s < of_nat h \<or> 2 ^ 32 \<le> h" "h < 2 ^ 32 \<Longrightarrow> unat (s - of_nat h) = m * n"
proof -
  show "\<not> s < of_nat h \<or> 2 ^ 32 \<le> h"
  proof (cases "h < 2 ^ 32")
    case True
    then have "unat (of_nat h :: 32 word) = h"
      by (simp add: unat_of_nat)
    then show ?thesis
      using assms by (simp add: word_less_nat_alt)
  qed simp
  assume h: "h < 2 ^ 32"
  then have u: "unat (of_nat h :: 32 word) = h"
    by (simp add: unat_of_nat)
  then have "of_nat h \<le> s"
    using assms by (simp add: word_le_nat_alt)
  then show "unat (s - of_nat h) = m * n"
    using assms u by (simp add: unat_sub)
qed

lemma ProcessChunk_FDot_overrun:
  assumes ty: "type_ch header = FDot" and sz: "unat (size_ch header) = 24 + 6 * n" and n: "0 < n"
  shows "ProcessChunk_FDot header (Some d) localBuffer shape eh = Inl OutOfBounds"
proof -
  have ge: "\<not> size_ch header < 24"
    using word32_payload(1) [of "size_ch header" 24 6 n] sz by simp
  have "unat (size_ch header - 24) = 6 * n"
    using word32_payload(2) [of "size_ch header" 24 6 n] sz by simp
  then have "unat ((size_ch header - 24) mod 6) = 0"
    by (simp add: unat_mod)
  then have m: "(size_ch header - 24) mod 6 = 0"
    by (simp add: unat_eq_0)
  have hdr: "ValidateChunkData_FDot header (Some d)"
    using ty ge m by (simp add: ValidateChunkData_FDot_def)
  have cnt: "CalculateVertexCount (unat (size_ch header)) = n"
    by (simp add: CalculateVertexCount_def sz)
  have over: "DecrunchDotsVertices (Some d) localBuffer
                (Some (vertexBuffer (AllocateVertexBuffer n shape))) n eh = Inl OutOfBounds"
    using n by (intro DecrunchDotsVertices_overrun) (simp_all add: AllocateVertexBuffer_def length_resize)
  show ?thesis
    unfolding ProcessChunk_FDot_def Let_def cnt over using hdr n by simp
qed

lemma ProcessChunk_Dot2_overrun:
  assumes ty: "type_ch header = Dot2" and sz: "unat (size_ch header) = 8 + 12 * n" and n: "0 < n"
    and len: "8 + 12 * n \<le> length d"
  shows "ProcessChunk_Dot2 to_float header (Some d) shape eh = Inl OutOfBounds"
proof -
  have ge: "\<not> size_ch header < 8"
    using word32_payload(1) [of "size_ch header" 8 12 n] sz by simp
  have "unat (size_ch header - 8) = 12 * n"
    using word32_payload(2) [of "size_ch header" 8 12 n] sz by simp
  then have "unat ((size_ch header - 8) mod 12) = 0"
    by (simp add: unat_mod)
  then have m: "(size_ch header - 8) mod 12 = 0"
    by (simp add: unat_eq_0)
  have hdr: "ValidateChunkData_Dot2 header (Some d)"
    using ty ge m by (simp add: ValidateChunkData_Dot2_def)
  have cnt: "(unat (size_ch header) - 8) div 12 = n" "(unat (size_ch header) - 8) mod 12 = 0"
    by (simp_all add: sz)
  have over: "ConvertPackedToFloatVertices to_float (Some d) 8
                (Some (vertexBuffer (AllocateVertexBuffer n shape))) n eh = Inl OutOfBounds"
    using n len
    by (intro ConvertPackedToFloatVertices_overrun) (simp_all add: AllocateVertexBuffer_def length_resize)
  show ?thesis
    unfolding ProcessChunk_Dot2_def Let_def cnt over using hdr ge by simp
qed

text \<open>
  Claim C1, at an \<^verbatim>\<open>FDot\<close> chunk of 30 bytes and a \<^verbatim>\<open>Dot2\<close> chunk of 20 bytes (one
  vertex each), and at the three-component codec on one vertex.  \<^verbatim>\<open>AllocateVertexBuffer\<close>
  sizes the vertex buffer to \<open>vertexCount * 8\<close> floats, with no slot for the terminator;
  each codec then stores the terminator at index \<open>vertexCount * 8\<close>, outside the buffer.
  \<^verbatim>\<open>ShapeData::IsValid\<close> accepts the buffer of \<open>vertexCount * 8\<close> floats and rejects the
  one of \<open>vertexCount * 8 + 1\<close> floats that ends in the terminator.
\<close>

theorem vertex_terminator_outside_buffer:
  "ProcessChunk_FDot (ChunkHeader_of 0x746f4446 30) (Some (replicate 30 0)) localBuffer
     ShapeData_new ErrorHandler_initial = Inl OutOfBounds \<and>
   ProcessChunk_Dot2 to_float (ChunkHeader_of 0x32746f44 20) (Some (replicate 20 0))
     ShapeData_new ErrorHandler_initial = Inl OutOfBounds \<and>
   ConvertPackedToFloatVertices3Component to_float (Some (replicate 12 0)) 0
     (Some (vertexBuffer (AllocateVertexBuffer 1 ShapeData_new))) 1 ErrorHandler_initial =
     Inl OutOfBounds \<and>
   length (vertexBuffer (AllocateVertexBuffer 1 ShapeData_new)) = 1 * 8 \<and>
   IsValid_shape (ShapeData_new\<lparr>vertexBuffer := replicate 8 0, vertexCount := 1\<rparr>) \<and>
   \<not> IsValid_shape
       (ShapeData_new\<lparr>vertexBuffer := replicate 8 0 @ [GetVertexTerminator], vertexCount := 1\<rparr>)"
proof -
  have "ProcessChunk_FDot (ChunkHeader_of 0x746f4446 30) (Some (replicate 30 0)) localBuffer
     ShapeData_new ErrorHandler_initial = Inl OutOfBounds"
    by (rule ProcessChunk_FDot_overrun [where n = 1])
      (simp_all add: ChunkHeader_of_def GetChunkTypeFromRawID_def)
  moreover have "ProcessChunk_Dot2 to_float (ChunkHeader_of 0x32746f44 20) (Some (replicate 20 0))
     ShapeData_new ErrorHandler_initial = Inl OutOfBounds"
    by (rule ProcessChunk_Dot2_overrun [where n = 1])
      (simp_all add: ChunkHeader_of_def GetChunkTypeFromRawID_def)
  moreover have "ConvertPackedToFloatVertices3Component to_float (Some (replicate 12 0)) 0
     (Some (vertexBuffer (AllocateVertexBuffer 1 ShapeData_new))) 1 ErrorHandler_initial =
     Inl OutOfBounds"
    by (rule ConvertPackedToFloatVertices3Component_overrun)
      (simp_all add: AllocateVertexBuffer_def length_resize)
  moreover have "IsValid_shape (ShapeData_new\<lparr>vertexBuffer := replicate 8 0, vertexCount := 1\<rparr>)"
    by (simp add: IsValid_shape_def ShapeData_new_def)
  moreover have "\<not> IsValid_shape
       (ShapeData_new\<lparr>vertexBuffer := replicate 8 0 @ [GetVertexTerminator], vertexCount := 1\<rparr>)"
    by (simp add: IsValid_shape_def ShapeData_new_def)
  moreover have "length (vertexBuffer (AllocateVertexBuffer 1 ShapeData_new)) = 1 * 8"
    by (simp add: AllocateVertexBuffer_def length_resize)
  ultimately show ?thesis
    by blast
qed

text \<open>
  Claim C10.  \<^verbatim>\<open>DecrunchDotsVertices\<close> does not depend on the bytes of its input: two
  payloads give the same result (for the same content of the uninitialised local array),
  and whatever the payloads and the local arrays are, on an output buffer with room for
  \<open>n\<close> records and the terminator both runs return, lanes 3 to 7 of every record are
  zero and the word after the records is the terminator.
\<close>

theorem DecrunchDots_ignores_coordinates:
  assumes "0 < n" and "8 * n + 1 \<le> length out"
  shows "DecrunchDotsVertices (Some d1) u (Some out) n eh =
         DecrunchDotsVertices (Some d2) u (Some out) n eh \<and>
    (\<exists>r1 r2.
       DecrunchDotsVertices (Some d1) u1 (Some out) n eh = Inr (True, Some r1, eh) \<and>
       DecrunchDotsVertices (Some d2) u2 (Some out) n eh = Inr (True, Some r2, eh) \<and>
       length r1 = length out \<and> length r2 = length out \<and>
       (\<forall>i<n. \<forall>l. 3 \<le> l \<and> l < 8 \<longrightarrow> r1 ! (8 * i + l) = 0 \<and> r2 ! (8 * i + l) = 0) \<and>
       r1 ! (8 * n) = GetVertexTerminator \<and> r2 ! (8 * n) = GetVertexTerminator)"
proof -
  define run where "run u = (concat (map (\<lambda>j. Sub4F2950Rearrangement (u j)) [0..<n]) @ drop (8 * n) out)
                  [8 * n := GetVertexTerminator]" for u :: "nat \<Rightarrow> nat \<Rightarrow> 32 word"
  have len: "length (run u) = length out" for u
    using assms(2) by (simp add: run_def length_concat_map8)
  have lanes: "run u ! (8 * i + l) = 0" if "i < n" "3 \<le> l" "l < 8" for u i l
  proof -
    have lt: "8 * i + l < 8 * n" using that by simp
    have "run u ! (8 * i + l) =
          concat (map (\<lambda>j. Sub4F2950Rearrangement (u j)) [0..<n]) ! (8 * i + l)"
      using lt by (simp add: run_def nth_append length_concat_map8)
    also have "\<dots> = Sub4F2950Rearrangement (u i) ! l"
      using that by (intro concat_map_nth8) simp_all
    also have "\<dots> = 0"
      using that by (auto simp add: Sub4F2950Rearrangement_def nth_Cons')
    finally show ?thesis .
  qed
  have last: "run u ! (8 * n) = GetVertexTerminator" for u
    using assms(2) by (simp add: run_def length_concat_map8)
  have r: "DecrunchDotsVertices (Some d) u (Some out) n eh = Inr (True, Some (run u), eh)" for d u
    unfolding run_def by (rule DecrunchDotsVertices_run [OF assms])
  show ?thesis
    using len lanes last by (simp add: r)
qed

theorem DecrunchDots_ignores_coordinates_witness:
  "DecrunchDotsVertices (Some (replicate 24 0 @ [1, 2, 3, 4, 5, 6])) (\<lambda>i j. 7)
       (Some (replicate 9 0)) 1 ErrorHandler_initial =
   DecrunchDotsVertices (Some (replicate 24 0 @ [9, 9, 9, 9, 9, 9])) (\<lambda>i j. 7)
       (Some (replicate 9 0)) 1 ErrorHandler_initial \<and>
   (\<exists>r1 r2.
      DecrunchDotsVertices (Some (replicate 24 0 @ [1, 2, 3, 4, 5, 6])) (\<lambda>i j. 7)
          (Some (replicate 9 0)) 1 ErrorHandler_initial = Inr (True, Some r1, ErrorHandler_initial) \<and>
      DecrunchDotsVertices (Some (replicate 24 0 @ [9, 9, 9, 9, 9, 9])) (\<lambda>i j. 5)
          (Some (replicate 9 0)) 1 ErrorHandler_initial = Inr (True, Some r2, ErrorHandler_initial) \<and>
      length r1 = 9 \<and> length r2 = 9 \<and>
      r1 ! 3 = 0 \<and> r1 ! 4 = 0 \<and> r1 ! 5 = 0 \<and> r1 ! 6 = 0 \<and> r1 ! 7 = 0 \<and>
      r2 ! 3 = 0 \<and> r2 ! 4 = 0 \<and> r2 ! 5 = 0 \<and> r2 ! 6 = 0 \<and> r2 ! 7 = 0 \<and>
      r1 ! 8 = GetVertexTerminator \<and> r2 ! 8 = GetVertexTerminator)"
proof -
  have a: "(0::nat) < 1" by simp
  have b: "8 * 1 + 1 \<le> length (replicate 9 (0 :: 32 word))" by simp
  from DecrunchDots_ignores_coordinates [OF a b,
      of "replicate 24 0 @ [1, 2, 3, 4, 5, 6]" "\<lambda>i j. 7" ErrorHandler_initial
         "replicate 24 0 @ [9, 9, 9, 9, 9, 9]" "\<lambda>i j. 7" "\<lambda>i j. 5"]
  obtain r1 r2 where
    eq: "DecrunchDotsVertices (Some (replicate 24 0 @ [1, 2, 3, 4, 5, 6])) (\<lambda>i j. 7)
          (Some (replicate 9 0)) 1 ErrorHandler_initial =
        DecrunchDotsVertices (Some (replicate 24 0 @ [9, 9, 9, 9, 9, 9])) (\<lambda>i j. 7)
          (Some (replicate 9 0)) 1 ErrorHandler_initial"
    and r1: "DecrunchDotsVertices (Some (replicate 24 0 @ [1, 2, 3, 4, 5, 6])) (\<lambda>i j. 7)
          (Some (replicate 9 0)) 1 ErrorHandler_initial = Inr (True, Some r1, ErrorHandler_initial)"
    and r2: "DecrunchDotsVertices (Some (replicate 24 0 @ [9, 9, 9, 9, 9, 9])) (\<lambda>i j. 5)
          (Some (replicate 9 0)) 1 ErrorHandler_initial = Inr (True, Some r2, ErrorHandler_initial)"
    and len: "length r1 = length (replicate 9 (0 :: 32 word))"
             "length r2 = length (replicate 9 (0 :: 32 word))"
    and lanes: "\<forall>i<1. \<forall>l. 3 \<le> l \<and> l < 8 \<longrightarrow> r1 ! (8 * i + l) = 0 \<and> r2 ! (8 * i + l) = 0"
    and last: "r1 ! (8 * 1) = GetVertexTerminator" "r2 ! (8 * 1) = GetVertexTerminator"
    by blast
  have l: "r1 ! l = 0 \<and> r2 ! l = 0" if "3 \<le> l" "l < 8" for l
    using lanes that by force
  show ?thesis
    using eq r1 r2 len last l [of 3] l [of 4] l [of 5] l [of 6] l [of 7] by auto
qed

section \<open>Properties of the topology expansion\<close>

lemmas primitive_kinds =
  TriangleStrip_def QuadStripInput_def QuadStrip_def TriangleList_def PointSprite_def
  LineStrip_def LineStripAlt_def ComplexPrimitive_def EndMarker_def Terminator_def

lemmas primitive_flag_bits =
  LOBYTE_BASIC_def HIBYTE_EXTENDED_def BYTE2_INDEXED_def LOWORD_COMPLEX_def

lemma foldl_append_concat:
  "foldl (\<lambda>acc i. acc @ f i) acc xs = acc @ concat (map f xs)"
  by (induction xs arbitrary: acc) simp_all

lemma ConvertToTriangleList_concat:
  "ConvertToTriangleList s =
     concat (map (\<lambda>i. [s ! i, s ! (i + 1), s ! (i + 2)]) [0 ..< length s - 2])"
  by (simp add: ConvertToTriangleList_def foldl_append_concat)

lemma length_concat_map3:
  "length (concat (map (\<lambda>i. [f i, g i, h i]) [0..<n])) = 3 * n"
  by (induction n) simp_all

text \<open>The exporter reverses the first two indices of every odd triangle of a strip.\<close>

lemma WriteOBJFile_strip_faces_reverses_odd:
  "WriteOBJFile_strip_faces [0, 1, 2, 3] = [[1, 2, 3], [3, 2, 4]]"
  by (simp add: WriteOBJFile_strip_faces_def upt_conv_Cons)

text \<open>
  In the decoder a strip token passes everything after it to \<^verbatim>\<open>ProcessTriangleStrip\<close>,
  which drops the triangle list it computes; the primitive buffer keeps the zeros of its
  allocation.
\<close>

lemma prim_step_TriangleStrip:
  assumes "offset < length data" and "data ! offset = TriangleStrip"
  shows "prim_step data offset shape primitiveFlags eh = Inr (Continue (offset + 10) 0x00010001 eh)"
  using assms
  by (simp add: prim_step_def ParsePrimitiveType_def load_def IsValidPrimitiveType_def
      IsControlConstant_def SetPrimitiveFlags_def GetFlagsForType_def ConvertInputType_def
      ProcessTriangleStrip_def primitive_kinds primitive_flag_bits)

lemma ProcessPrimitiveData_strip_scenario:
  "ProcessPrimitiveData (Some strip_scenario) ShapeData_new 0 ErrorHandler_initial =
     Inr (True, ShapeData_new\<lparr>primitiveBuffer := [0, 0, 0], primitiveCount := 3\<rparr>, 0x00010001,
          ErrorHandler_initial)"
proof -
  have cnt: "CountPrimitives (Some strip_scenario) = Inr 1"
    by (simp add: strip_scenario_def CountPrimitives_def count_loop.simps ParsePrimitiveType_def
        load_def IsValidPrimitiveType_def IsControlConstant_def primitive_kinds)
  have step: "prim_step strip_scenario 0 shape 0 ErrorHandler_initial =
      Inr (Continue (0 + 10) 0x00010001 ErrorHandler_initial)" for shape
    by (rule prim_step_TriangleStrip) (simp_all add: strip_scenario_def TriangleStrip_def)
  have loop: "prim_loop strip_scenario 0 shape 0 ErrorHandler_initial =
      Inr (True, 0x00010001, ErrorHandler_initial)" for shape
    by (simp add: prim_loop.simps [of _ 0] prim_loop.simps [of _ 10] step)
      (simp add: strip_scenario_def)
  have buf: "AllocatePrimitiveBuffer 3 ShapeData_new =
      ShapeData_new\<lparr>primitiveBuffer := [0, 0, 0], primitiveCount := 3\<rparr>"
    by (simp add: AllocatePrimitiveBuffer_def ShapeData_new_def resize_def numeral_3_eq_3)
  show ?thesis
    by (simp add: ProcessPrimitiveData_def ValidatePrimitiveData_def cnt loop buf)
      (simp add: strip_scenario_def)
qed

text \<open>
  Claim C3.  \<^verbatim>\<open>ConvertToTriangleList\<close> pushes \<open>(s[i], s[i+1], s[i+2])\<close> for every \<open>i\<close> in
  \<open>[0, n-2)\<close>, \<open>3 * (n - 2)\<close> indices in all, without the reversal of the first two
  indices at odd \<open>i\<close> that the claim states and that the exporter's strip case performs:
  the strip 0,1,2,3 gives \<open>[0,1,2, 1,2,3]\<close>, whose second triangle is not reversed.  In
  the decoder the function is moreover handed every token after the type token, the count
  token and the end marker included, and its result is dropped: on the token stream
  \<open>16646, 4, 0, 1, 2, 3, 0x6000\<close> it computes \<open>[4,0,1, 0,1,2, 1,2,3, 2,3,0x6000]\<close>, and
  \<^verbatim>\<open>ProcessPrimitiveData\<close> returns with the primitive buffer holding three zeros.
\<close>

theorem ConvertToTriangleList_omits_reversal:
  "ConvertToTriangleList s =
     concat (map (\<lambda>i. [s ! i, s ! (i + 1), s ! (i + 2)]) [0 ..< length s - 2]) \<and>
   length (ConvertToTriangleList s) = 3 * (length s - 2) \<and>
   ConvertToTriangleList [0, 1, 2, 3] = [0, 1, 2, 1, 2, 3] \<and>
   ConvertToTriangleList (drop 1 strip_scenario) = [4, 0, 1, 0, 1, 2, 1, 2, 3, 2, 3, 0x6000] \<and>
   ProcessPrimitiveData (Some strip_scenario) ShapeData_new 0 ErrorHandler_initial =
     Inr (True, ShapeData_new\<lparr>primitiveBuffer := [0, 0, 0], primitiveCount := 3\<rparr>, 0x00010001,
          ErrorHandler_initial)"
proof -
  have a: "ConvertToTriangleList [0, 1, 2, 3] = [0, 1, 2, 1, 2, 3]"
    by (simp add: ConvertToTriangleList_concat upt_conv_Cons)
  have b: "ConvertToTriangleList (drop 1 strip_scenario) =
      [4, 0, 1, 0, 1, 2, 1, 2, 3, 2, 3, 0x6000]"
    by (simp add: strip_scenario_def ConvertToTriangleList_concat upt_conv_Cons)
  show ?thesis
    using a b ProcessPrimitiveData_strip_scenario
    by (simp add: ConvertToTriangleList_concat length_concat_map3)
qed

section \<open>Properties of the primitive-flag register\<close>






section \<open>Properties of the surface table\<close>

lemma unat16_of_nat: "m < 65536 \<Longrightarrow> unat (of_nat m :: 16 word) = m"
  by (simp add: unat_of_nat)

lemma uint16_of_nat: "m < 65536 \<Longrightarrow> uint (of_nat m :: 16 word) = int m"
  by (simp add: uint_nat unat16_of_nat)

lemma InitializeSurface_fresh:
  assumes "unat sid < length (surfaceTable g)"
    and "surfaceTable g ! unat sid = SurfaceTableEntry_new"
  shows "InitializeSurface sid g = Inr g"
proof -
  have "(surfaceTable g)[unat sid := SurfaceTableEntry_new] = surfaceTable g"
    using assms by (metis list_update_id)
  then show ?thesis
    using assms by (simp add: InitializeSurface_def load_def SurfaceTableEntry_new_def)
qed

lemma init_loop_fresh:
  assumes "surfaceTable g = replicate m SurfaceTableEntry_new" and "m \<le> 65536"
    and "\<forall>i \<in> set ids. i < m"
  shows "init_loop ids g = Inr g"
  using assms(3)
proof (induction ids)
  case Nil
  then show ?case by simp
next
  case (Cons i ids)
  then have i: "i < m" by simp
  then have u: "unat (of_nat i :: 16 word) = i"
    using assms(2) by (simp add: unat16_of_nat)
  have "InitializeSurface (of_nat i) g = Inr g"
    using i u assms(1) by (intro InitializeSurface_fresh) simp_all
  then show ?case using Cons by simp
qed

lemma Initialize_default:
  "Initialize 1000 2000 SurfaceGenerator_new eh = Inr (True, default_generator, eh)"
proof -
  let ?g3 = "\<lparr>textureHashTable = replicate 1000 (- 1),
      hashCollisionData = replicate 4000 SurfaceHashEntry_new,
      surfaceTable = replicate 2000 SurfaceTableEntry_new,
      maxTextures = 1000, maxSurfaces = 2000, systemInitialized = False,
      nextSurfaceID = 1, nextHashEntry = 0\<rparr>"
  have "init_loop [0 ..< 2000] ?g3 = Inr ?g3"
    by (rule init_loop_fresh [where m = 2000]) simp_all
  then show ?thesis
    by (simp add: Initialize_def SurfaceGenerator_new_def resize_def default_generator_def Let_def)
qed

text \<open>
  Claim C5, with the default bounds.  \<^verbatim>\<open>Initialize\<close> sizes the first-entry table to
  \<open>maxTextures\<close> entries, not \<open>maxTextures + 1\<close>; texture id \<open>maxTextures - 1 = 999\<close>
  passes the bounds check, and the access at index \<open>textureID + 1 = 1000\<close> is outside
  the table.
\<close>

theorem first_entry_table_too_short:
  "Initialize 1000 2000 SurfaceGenerator_new ErrorHandler_initial =
     Inr (True, default_generator, ErrorHandler_initial) \<and>
   length (textureHashTable default_generator) = 1000 \<and>
   IsValidTextureID default_generator 999 \<and>
   GetSurfaceHash TriangleStrip 999 0 default_generator ErrorHandler_initial = Inl OutOfBounds"
  by (simp add: Initialize_default)
     (simp add: default_generator_def IsValidTextureID_def GetSurfaceHash_def load_def)

text \<open>
  Claim C4, at the key (TriangleStrip, 999, 0) on the default table: the first of the two
  calls already reads the first-entry table out of bounds.
\<close>

theorem GetOrCreateSurface_last_texture_out_of_bounds:
  "GetOrCreateSurface TriangleStrip 999 0 default_generator ErrorHandler_initial = Inl OutOfBounds"
  by (simp add: GetOrCreateSurface_def default_generator_def GetSurfaceHash_def load_def)

lemma table_inv_sizes:
  assumes "table_inv g keys"
  shows "maxTextures g = 1000" and "maxSurfaces g = 2000" and "systemInitialized g"
    and "length (textureHashTable g) = 1000"
    and "length (hashCollisionData g) = 4000"
    and "length (surfaceTable g) = 2000"
    and "length keys \<le> 1999"
    and "nextSurfaceID g = of_nat (length keys + 1)"
    and "nextHashEntry g = of_nat (length keys)"
  using assms unfolding table_inv_def by blast+

lemma table_inv_entries:
  assumes "table_inv g keys" and "i < length keys"
  shows "searchKey (hashCollisionData g ! i) = key_of (keys ! i)"
    and "nextEntry (hashCollisionData g ! i) = - 1 \<or>
         0 \<le> nextEntry (hashCollisionData g ! i) \<and>
         nextEntry (hashCollisionData g ! i) < int i \<and>
         tex_of (keys ! nat (nextEntry (hashCollisionData g ! i))) = tex_of (keys ! i)"
  using assms unfolding table_inv_def by blast+

lemma table_inv_free:
  assumes "table_inv g keys" and "length keys \<le> i" and "i < 4000"
  shows "surfaceID (hashCollisionData g ! i) = 0"
  using assms unfolding table_inv_def by blast

lemma table_inv_heads:
  assumes "table_inv g keys" and "j < 1000"
  shows "textureHashTable g ! j = - 1 \<or>
        0 \<le> textureHashTable g ! j \<and>
        textureHashTable g ! j < int (length keys) \<and>
        int j = sint (tex_of (keys ! nat (textureHashTable g ! j))) + 1"
  using assms unfolding table_inv_def by blast

lemma table_inv_unused:
  assumes "table_inv g keys" and "length keys < i" and "i < 2000"
  shows "surfaceTable g ! i = SurfaceTableEntry_new"
  using assms unfolding table_inv_def by blast

lemma bit16_bound: "bit (v :: 16 word) m \<Longrightarrow> m < 16"
  using bit_imp_le_length [of v m] by simp

lemma GetSearchKey_low: "ucast (GetSearchKey p f) = f"
proof (rule bit_word_eqI)
  fix n :: nat
  assume "n < LENGTH(16)"
  then show "bit (ucast (GetSearchKey p f) :: 16 word) n = bit f n"
    by (auto simp add: GetSearchKey_def bit_simps)
qed

lemma GetSearchKey_high: "ucast (drop_bit 16 (GetSearchKey p f)) = p"
proof (rule bit_word_eqI)
  fix n :: nat
  assume "n < LENGTH(16)"
  then show "bit (ucast (drop_bit 16 (GetSearchKey p f)) :: 16 word) n = bit p n"
    using bit16_bound [of f "16 + n"] by (auto simp add: GetSearchKey_def bit_simps)
qed

lemma GetSearchKey_inj:
  "GetSearchKey p f = GetSearchKey p' f' \<longleftrightarrow> p = p' \<and> f = f'"
  by (metis GetSearchKey_low GetSearchKey_high)

lemma chain_walk_unfold:
  "0 < fuel \<Longrightarrow>
   chain_walk fuel hcd key hashEntry =
     (if hashEntry < 0 \<or> nat hashEntry \<ge> length hcd then Inl OutOfBounds
      else if searchKey (hcd ! nat hashEntry) \<noteq> key
      then (if nextEntry (hcd ! nat hashEntry) = - 1 then Inr 0xFFFF
            else chain_walk (fuel - 1) hcd key (nextEntry (hcd ! nat hashEntry)))
      else Inr (surfaceID (hcd ! nat hashEntry)))"
  by (cases fuel) (simp_all add: Let_def)

lemma chain_walk_fresh:
  assumes entries: "\<forall>i < n.
        searchKey (hcd ! i) = key_of (keys ! i) \<and>
        (nextEntry (hcd ! i) = - 1 \<or>
         0 \<le> nextEntry (hcd ! i) \<and> nextEntry (hcd ! i) < int i \<and>
         tex_of (keys ! nat (nextEntry (hcd ! i))) = tex_of (keys ! i))"
    and n: "n \<le> length hcd"
    and fresh: "\<forall>i < n. tex_of (keys ! i) = t \<longrightarrow> key_of (keys ! i) \<noteq> key"
  shows "0 \<le> e \<Longrightarrow> e < int n \<Longrightarrow> tex_of (keys ! nat e) = t \<Longrightarrow> nat e < fuel \<Longrightarrow>
         chain_walk fuel hcd key e = Inr 0xFFFF"
proof (induction fuel arbitrary: e)
  case 0
  then show ?case by simp
next
  case (Suc fuel)
  let ?i = "nat e"
  have i: "?i < n" using Suc.prems by simp
  have inb: "\<not> (e < 0 \<or> nat e \<ge> length hcd)" using Suc.prems n by simp
  have key: "searchKey (hcd ! ?i) \<noteq> key"
    using entries fresh i Suc.prems(3) by simp
  show ?case
  proof (cases "nextEntry (hcd ! ?i) = - 1")
    case True
    then show ?thesis using inb key by (simp add: Let_def)
  next
    case False
    let ?e' = "nextEntry (hcd ! ?i)"
    have e': "0 \<le> ?e'" "?e' < int ?i" "tex_of (keys ! nat ?e') = tex_of (keys ! ?i)"
      using entries i False by auto
    have "chain_walk fuel hcd key ?e' = Inr 0xFFFF"
    proof (rule Suc.IH)
      show "0 \<le> ?e'" by (rule e')
      show "?e' < int n" using e' i Suc.prems(1) by simp
      show "tex_of (keys ! nat ?e') = t" using e' Suc.prems(3) by simp
      show "nat ?e' < fuel" using e' Suc.prems(1,4) by simp
    qed
    then show ?thesis using inb key False by (simp add: Let_def)
  qed
qed

lemma fresh_keys:
  assumes "(pt, t, fl) \<notin> set keys"
  shows "\<forall>i < length keys. tex_of (keys ! i) = t \<longrightarrow> key_of (keys ! i) \<noteq> GetSearchKey pt fl"
proof (intro allI impI)
  fix i
  assume i: "i < length keys" and t: "tex_of (keys ! i) = t"
  obtain p t' f where k: "keys ! i = (p, t', f)" by (cases "keys ! i")
  have "keys ! i \<in> set keys" using i by simp
  then have "(p, t', f) \<noteq> (pt, t, fl)" using assms k by metis
  moreover have "t' = t" using t k by (simp add: tex_of_def)
  ultimately have "\<not> (p = pt \<and> f = fl)" by simp
  then show "key_of (keys ! i) \<noteq> GetSearchKey pt fl"
    by (simp add: key_of_def k GetSearchKey_inj)
qed

lemma GetSurfaceHash_fresh:
  assumes inv: "table_inv g keys"
    and tex: "- 1 \<le> sint t" "sint t < 999"
    and fresh: "(pt, t, fl) \<notin> set keys"
  shows "GetSurfaceHash pt t fl g eh = Inr (0xFFFF, eh)"
proof -
  note sz = table_inv_sizes [OF inv]
  let ?j = "nat (sint t + 1)"
  let ?h = "textureHashTable g ! ?j"
  have j: "?j < 1000" using tex by simp
  have ld: "load (textureHashTable g) ?j = Inr ?h"
    using j sz(4) by (simp add: load_def)
  have pre: "\<not> (sint t \<ge> maxTextures g \<or> sint t < - 1)" "systemInitialized g"
    using sz(1,3) tex by simp_all
  show ?thesis
  proof (cases "?h = - 1")
    case True
    then show ?thesis
      using pre ld by (simp add: GetSurfaceHash_def)
  next
    case False
    have h: "0 \<le> ?h" "?h < int (length keys)" "int ?j = sint (tex_of (keys ! nat ?h)) + 1"
      using table_inv_heads [OF inv j] False by blast+
    have "sint (tex_of (keys ! nat ?h)) = sint t"
      using h(3) tex by simp
    then have th: "tex_of (keys ! nat ?h) = t"
      by (rule signed_word_eqI)
    have "chain_walk (length (hashCollisionData g) + 1) (hashCollisionData g)
            (GetSearchKey pt fl) ?h = Inr 0xFFFF"
    proof (rule chain_walk_fresh [where n = "length keys" and keys = keys and t = t])
      show "\<forall>i < length keys.
        searchKey (hashCollisionData g ! i) = key_of (keys ! i) \<and>
        (nextEntry (hashCollisionData g ! i) = - 1 \<or>
         0 \<le> nextEntry (hashCollisionData g ! i) \<and> nextEntry (hashCollisionData g ! i) < int i \<and>
         tex_of (keys ! nat (nextEntry (hashCollisionData g ! i))) = tex_of (keys ! i))"
        using table_inv_entries [OF inv] by blast
      show "length keys \<le> length (hashCollisionData g)"
        using sz(5,7) by simp
      show "\<forall>i < length keys. tex_of (keys ! i) = t \<longrightarrow> key_of (keys ! i) \<noteq> GetSearchKey pt fl"
        by (rule fresh_keys [OF fresh])
      show "0 \<le> ?h" by (rule h)
      show "?h < int (length keys)" by (rule h)
      show "tex_of (keys ! nat ?h) = t" by (rule th)
      show "nat ?h < length (hashCollisionData g) + 1"
        using h(1,2) sz(5,7) by linarith
    qed
    then show ?thesis
      using pre ld False by (simp add: GetSurfaceHash_def)
  qed
qed

lemma word16_of_nat_pos: "0 < m \<Longrightarrow> m < 65536 \<Longrightarrow> (0 :: 16 word) < of_nat m"
  by (simp add: word_less_nat_alt unat16_of_nat)

lemma word16_of_nat_neq_max: "m < 65535 \<Longrightarrow> (of_nat m :: 16 word) \<noteq> 0xFFFF"
proof
  assume m: "m < 65535" and eq: "(of_nat m :: 16 word) = 0xFFFF"
  have "unat (of_nat m :: 16 word) = m" using m by (simp add: unat16_of_nat)
  moreover have "unat (0xFFFF :: 16 word) = 65535" by simp
  ultimately show False using m eq by simp
qed

lemma IsValidSurfaceID_of_nat:
  "maxSurfaces g = 2000 \<Longrightarrow> 0 < m \<Longrightarrow> m < 2000 \<Longrightarrow> IsValidSurfaceID g (of_nat m)"
  by (simp add: IsValidSurfaceID_def word16_of_nat_pos uint16_of_nat)

lemma GetNewSurface_ok:
  assumes "maxSurfaces g = 2000" and "length (surfaceTable g) = 2000"
    and "nextSurfaceID g = of_nat m" and "0 < m" and "m < 2000"
    and "surfaceTable g ! m = SurfaceTableEntry_new"
  shows "GetNewSurface g eh =
     Inr (of_nat m,
          g\<lparr>nextSurfaceID := of_nat m + 1,
            surfaceTable := (surfaceTable g)
              [m := \<lparr>textureID = - 1, primitiveType = 0, flags = 0, status = 1\<rparr>]\<rparr>,
          eh)"
proof -
  have u: "unat (of_nat m :: 16 word) = m" "uint (of_nat m :: 16 word) = int m"
    using assms(5) by (simp_all add: unat16_of_nat uint16_of_nat)
  let ?g1 = "g\<lparr>nextSurfaceID := nextSurfaceID g + 1\<rparr>"
  let ?g2 = "?g1\<lparr>surfaceTable := (surfaceTable ?g1)
                 [m := \<lparr>textureID = - 1, primitiveType = 0, flags = 0, status = 1\<rparr>]\<rparr>"
  have valid: "IsValidSurfaceID ?g2 (of_nat m)"
    using assms by (intro IsValidSurfaceID_of_nat) simp_all
  have init: "InitializeSurface (of_nat m) ?g2 = Inr ?g2"
    using valid assms(2,5) by (simp add: InitializeSurface_def load_def u)
  have act: "SetActive True SurfaceTableEntry_new =
      \<lparr>textureID = - 1, primitiveType = 0, flags = 0, status = 1\<rparr>"
    "\<not> IsActive SurfaceTableEntry_new"
    by (simp_all add: SetActive_def IsActive_def SurfaceTableEntry_new_def)
  show ?thesis
    using assms init by (simp add: GetNewSurface_def Let_def load_def u act)
qed

lemma UpdateSurfaceAlphaFlag_ok:
  assumes "maxSurfaces g = 2000" and "length (surfaceTable g) = 2000"
    and "0 < m" and "m < 2000"
    and "surfaceTable g ! m = \<lparr>textureID = t, primitiveType = pt, flags = fl, status = 1\<rparr>"
  shows "UpdateSurfaceAlphaFlag (of_nat m) g eh =
     Inr (True,
          g\<lparr>surfaceTable := (surfaceTable g)
              [m := \<lparr>textureID = t, primitiveType = pt, flags = fl,
                     status = (if pt = 16646 then 3 else 1)\<rparr>]\<rparr>,
          eh)"
proof -
  have u: "unat (of_nat m :: 16 word) = m"
    using assms(4) by (simp add: unat16_of_nat)
  have valid: "IsValidSurfaceID g (of_nat m)"
    using assms by (intro IsValidSurfaceID_of_nat) simp_all
  show ?thesis
    using assms valid
    by (simp add: UpdateSurfaceAlphaFlag_def load_def u IsActive_def SetAlpha_def Let_def)
qed

lemma SetSurfaceInfo_ok:
  assumes "maxSurfaces g = 2000" and "length (surfaceTable g) = 2000"
    and "0 < m" and "m < 2000"
    and "surfaceTable g ! m = \<lparr>textureID = - 1, primitiveType = 0, flags = 0, status = 1\<rparr>"
  shows "SetSurfaceInfo (of_nat m) pt t fl g eh =
     Inr (True,
          g\<lparr>surfaceTable := (surfaceTable g)
              [m := \<lparr>textureID = t, primitiveType = pt, flags = fl,
                     status = (if pt = 16646 then 3 else 1)\<rparr>]\<rparr>,
          eh)"
proof -
  have u: "unat (of_nat m :: 16 word) = m"
    using assms(4) by (simp add: unat16_of_nat)
  have valid: "IsValidSurfaceID g (of_nat m)"
    using assms by (intro IsValidSurfaceID_of_nat) simp_all
  let ?g1 = "g\<lparr>surfaceTable := (surfaceTable g)
              [m := \<lparr>textureID = t, primitiveType = pt, flags = fl, status = 1\<rparr>]\<rparr>"
  have upd: "UpdateSurfaceAlphaFlag (of_nat m) ?g1 eh =
     Inr (True,
          ?g1\<lparr>surfaceTable := (surfaceTable ?g1)
              [m := \<lparr>textureID = t, primitiveType = pt, flags = fl,
                     status = (if pt = 16646 then 3 else 1)\<rparr>]\<rparr>,
          eh)"
    using assms by (intro UpdateSurfaceAlphaFlag_ok) simp_all
  show ?thesis
    using assms valid upd by (simp add: SetSurfaceInfo_def load_def u IsActive_def)
qed

lemma find_free_from_unfold:
  "0 < fuel \<Longrightarrow>
   find_free_from fuel hcd i =
     (if unat i < length hcd
      then (if surfaceID (hcd ! unat i) = 0 then Inr (Some i)
            else find_free_from (fuel - 1) hcd (i + 1))
      else Inr None)"
  by (cases fuel) simp_all

lemma FindFreeHashEntry_next:
  assumes "nextHashEntry g = of_nat n" and "n < length (hashCollisionData g)" and "n < 65536"
    and "surfaceID (hashCollisionData g ! n) = 0"
  shows "FindFreeHashEntry g = Inr (of_nat n, g\<lparr>nextHashEntry := of_nat n + 1\<rparr>)"
proof -
  have u: "unat (of_nat n :: 16 word) = n"
    using assms(3) by (simp add: unat16_of_nat)
  have "find_free_from 65536 (hashCollisionData g) (of_nat n) = Inr (Some (of_nat n))"
    using assms by (simp add: find_free_from_unfold u)
  then show ?thesis
    using assms(1) by (simp add: FindFreeHashEntry_def)
qed

lemma AddSurfaceHash_ok:
  assumes "maxSurfaces g = 2000" and "maxTextures g = 1000"
    and "length (surfaceTable g) = 2000" and "length (hashCollisionData g) = 4000"
    and "length (textureHashTable g) = 1000"
    and "0 < m" and "m < 2000"
    and "surfaceTable g ! m = \<lparr>textureID = t, primitiveType = pt, flags = fl, status = s\<rparr>"
    and "- 1 \<le> sint t" and "sint t < 999"
    and "nextHashEntry g = of_nat n" and "n < 4000"
    and "surfaceID (hashCollisionData g ! n) = 0"
  shows "AddSurfaceHash (of_nat m) g eh =
     Inr (True,
          g\<lparr>nextHashEntry := of_nat n + 1,
            hashCollisionData := (hashCollisionData g)
              [n := (hashCollisionData g ! n)
                      \<lparr>searchKey := GetSearchKey pt fl, surfaceID := of_nat m,
                       nextEntry := textureHashTable g ! nat (sint t + 1)\<rparr>],
            textureHashTable := (textureHashTable g)[nat (sint t + 1) := int n]\<rparr>,
          eh)"
proof -
  have u: "unat (of_nat m :: 16 word) = m" "unat (of_nat n :: 16 word) = n"
    "uint (of_nat n :: 16 word) = int n"
    using assms(7,12) by (simp_all add: unat16_of_nat uint16_of_nat)
  have valid: "IsValidSurfaceID g (of_nat m)"
    using assms by (intro IsValidSurfaceID_of_nat) simp_all
  have tex: "IsValidTextureID g t"
    using assms by (simp add: IsValidTextureID_def)
  have free: "FindFreeHashEntry g = Inr (of_nat n, g\<lparr>nextHashEntry := of_nat n + 1\<rparr>)"
    using assms by (intro FindFreeHashEntry_next) simp_all
  have nmax: "(of_nat n :: 16 word) \<noteq> 0xFFFF"
    using assms(12) by (intro word16_of_nat_neq_max) simp
  have j: "nat (sint t + 1) < 1000"
    using assms(9,10) by simp
  show ?thesis
    using assms(3,4,5,7,8,12) valid tex nmax j
    by (simp add: AddSurfaceHash_def load_def u free Let_def)
qed

lemma GetOrCreateSurface_create:
  assumes "systemInitialized g"
    and "GetSurfaceHash pt t fl g eh = Inr (0xFFFF, eh)"
    and "GetNewSurface g eh = Inr (sid, g1, eh)"
    and "\<not> lastProcessedEvent eh"
    and "SetSurfaceInfo sid pt t fl g1 eh = Inr (True, g2, eh)"
    and "AddSurfaceHash sid g2 eh = Inr (True, g3, eh)"
  shows "GetOrCreateSurface pt t fl g eh = Inr (sid, g3, eh)"
  using assms by (simp add: GetOrCreateSurface_def HasLastError_def)

lemma GetOrCreateSurface_fresh:
  assumes inv: "table_inv g keys"
    and room: "length keys < 1999"
    and tex: "- 1 \<le> sint t" "sint t < 999"
    and fresh: "(pt, t, fl) \<notin> set keys"
    and quiet: "\<not> lastProcessedEvent eh"
  shows "GetOrCreateSurface pt t fl g eh =
     Inr (of_nat (length keys + 1), inserted g (length keys) (pt, t, fl), eh)"
proof -
  note sz = table_inv_sizes [OF inv]
  let ?n = "length keys"
  let ?m = "?n + 1"
  have look: "GetSurfaceHash pt t fl g eh = Inr (0xFFFF, eh)"
    by (rule GetSurfaceHash_fresh [OF inv tex fresh])
  let ?g1 = "g\<lparr>nextSurfaceID := of_nat ?m + 1,
            surfaceTable := (surfaceTable g)
              [?m := \<lparr>textureID = - 1, primitiveType = 0, flags = 0, status = 1\<rparr>]\<rparr>"
  have new: "GetNewSurface g eh = Inr (of_nat ?m, ?g1, eh)"
    using sz room table_inv_unused [OF inv, of ?m] by (intro GetNewSurface_ok) simp_all
  let ?g2 = "?g1\<lparr>surfaceTable := (surfaceTable ?g1)
              [?m := \<lparr>textureID = t, primitiveType = pt, flags = fl,
                     status = (if pt = 16646 then 3 else 1)\<rparr>]\<rparr>"
  have set: "SetSurfaceInfo (of_nat ?m) pt t fl ?g1 eh = Inr (True, ?g2, eh)"
    using sz room by (intro SetSurfaceInfo_ok) simp_all
  let ?g3 = "?g2\<lparr>nextHashEntry := of_nat ?n + 1,
            hashCollisionData := (hashCollisionData ?g2)
              [?n := (hashCollisionData ?g2 ! ?n)
                      \<lparr>searchKey := GetSearchKey pt fl, surfaceID := of_nat ?m,
                       nextEntry := textureHashTable ?g2 ! nat (sint t + 1)\<rparr>],
            textureHashTable := (textureHashTable ?g2)[nat (sint t + 1) := int ?n]\<rparr>"
  have add: "AddSurfaceHash (of_nat ?m) ?g2 eh = Inr (True, ?g3, eh)"
    using sz room tex table_inv_free [OF inv, of ?n]
    by (intro AddSurfaceHash_ok [where s = "if pt = 16646 then 3 else 1"]) simp_all
  have fin: "?g3 = inserted g ?n (pt, t, fl)"
    by (simp add: inserted_def tex_of_def key_of_def)
  have "GetOrCreateSurface pt t fl g eh = Inr (of_nat ?m, ?g3, eh)"
    by (rule GetOrCreateSurface_create [OF sz(3) look new quiet set add])
  then show ?thesis
    by (simp only: fin)
qed

lemma GetOrCreateSurface_full:
  assumes inv: "table_inv g keys"
    and full: "length keys = 1999"
    and tex: "- 1 \<le> sint t" "sint t < 999"
    and fresh: "(pt, t, fl) \<notin> set keys"
  shows "GetOrCreateSurface pt t fl g eh = Inr (0, g, PostEvent 2402 eh)"
proof -
  note sz = table_inv_sizes [OF inv]
  have look: "GetSurfaceHash pt t fl g eh = Inr (0xFFFF, eh)"
    by (rule GetSurfaceHash_fresh [OF inv tex fresh])
  have "uint (nextSurfaceID g) = 2000"
    using sz(8) full uint16_of_nat [of 2000] by simp
  then have new: "GetNewSurface g eh = Inr (0, g, PostEvent 2402 eh)"
    using sz(2) by (simp add: GetNewSurface_def)
  show ?thesis
    using sz(3)
    by (simp add: GetOrCreateSurface_def look new HasLastError_def PostEvent_def)
qed

lemma inserted_inv:
  assumes inv: "table_inv g keys"
    and room: "length keys < 1999"
    and tex: "- 1 \<le> sint (tex_of k)" "sint (tex_of k) < 999"
  shows "table_inv (inserted g (length keys) k) (keys @ [k])"
proof -
  note sz = table_inv_sizes [OF inv]
  let ?n = "length keys"
  let ?g = "inserted g ?n k"
  let ?j = "nat (sint (tex_of k) + 1)"
  have j: "?j < 1000" using tex by simp
  have n: "?n < 4000" using room by simp
  have hcd: "hashCollisionData ?g = (hashCollisionData g)
         [?n := (hashCollisionData g ! ?n)
                 \<lparr>searchKey := key_of k, surfaceID := of_nat (?n + 1),
                  nextEntry := textureHashTable g ! ?j\<rparr>]"
    and tht: "textureHashTable ?g = (textureHashTable g)[?j := int ?n]"
    and st: "surfaceTable ?g = (surfaceTable g)
         [?n + 1 := \<lparr>textureID = tex_of k, primitiveType = fst k, flags = snd (snd k),
                       status = (if fst k = 16646 then 3 else 1)\<rparr>]"
    by (simp_all add: inserted_def)
  have head: "textureHashTable g ! ?j = - 1 \<or>
        0 \<le> textureHashTable g ! ?j \<and> textureHashTable g ! ?j < int ?n \<and>
        int ?j = sint (tex_of (keys ! nat (textureHashTable g ! ?j))) + 1"
    by (rule table_inv_heads [OF inv j])
  have entries: "searchKey (hashCollisionData ?g ! i) = key_of ((keys @ [k]) ! i) \<and>
        (nextEntry (hashCollisionData ?g ! i) = - 1 \<or>
         0 \<le> nextEntry (hashCollisionData ?g ! i) \<and>
         nextEntry (hashCollisionData ?g ! i) < int i \<and>
         tex_of ((keys @ [k]) ! nat (nextEntry (hashCollisionData ?g ! i))) =
           tex_of ((keys @ [k]) ! i))"
    if i: "i < length (keys @ [k])" for i
  proof (cases "i < ?n")
    case True
    have same: "hashCollisionData ?g ! i = hashCollisionData g ! i"
      using True by (simp add: hcd)
    from table_inv_entries [OF inv True]
    have e: "searchKey (hashCollisionData g ! i) = key_of (keys ! i)"
      "nextEntry (hashCollisionData g ! i) = - 1 \<or>
         0 \<le> nextEntry (hashCollisionData g ! i) \<and>
         nextEntry (hashCollisionData g ! i) < int i \<and>
         tex_of (keys ! nat (nextEntry (hashCollisionData g ! i))) = tex_of (keys ! i)"
      by blast+
    from e(2) show ?thesis
    proof
      assume "nextEntry (hashCollisionData g ! i) = - 1"
      then show ?thesis using True e(1) by (simp add: same nth_append)
    next
      assume a: "0 \<le> nextEntry (hashCollisionData g ! i) \<and>
         nextEntry (hashCollisionData g ! i) < int i \<and>
         tex_of (keys ! nat (nextEntry (hashCollisionData g ! i))) = tex_of (keys ! i)"
      then have "nat (nextEntry (hashCollisionData g ! i)) < ?n"
        using True by linarith
      then show ?thesis using True e(1) a by (simp add: same nth_append)
    qed
  next
    case False
    then have eq: "i = ?n" using i by simp
    have new: "hashCollisionData ?g ! ?n =
        (hashCollisionData g ! ?n)
                 \<lparr>searchKey := key_of k, surfaceID := of_nat (?n + 1),
                  nextEntry := textureHashTable g ! ?j\<rparr>"
      using n sz(5) by (simp add: hcd)
    from head show ?thesis
    proof
      assume "textureHashTable g ! ?j = - 1"
      then show ?thesis by (simp add: eq new)
    next
      assume a: "0 \<le> textureHashTable g ! ?j \<and> textureHashTable g ! ?j < int ?n \<and>
        int ?j = sint (tex_of (keys ! nat (textureHashTable g ! ?j))) + 1"
      then have lt: "nat (textureHashTable g ! ?j) < ?n" by linarith
      have "sint (tex_of (keys ! nat (textureHashTable g ! ?j))) = sint (tex_of k)"
        using a tex by simp
      then have "tex_of (keys ! nat (textureHashTable g ! ?j)) = tex_of k"
        by (rule signed_word_eqI)
      then show ?thesis using a lt by (simp add: eq new nth_append)
    qed
  qed
  have free: "surfaceID (hashCollisionData ?g ! i) = 0"
    if "length (keys @ [k]) \<le> i" "i < 4000" for i
  proof -
    have "hashCollisionData ?g ! i = hashCollisionData g ! i"
      using that by (simp add: hcd)
    then show ?thesis
      using table_inv_free [OF inv, of i] that by simp
  qed
  have heads: "textureHashTable ?g ! j' = - 1 \<or>
        0 \<le> textureHashTable ?g ! j' \<and>
        textureHashTable ?g ! j' < int (length (keys @ [k])) \<and>
        int j' = sint (tex_of ((keys @ [k]) ! nat (textureHashTable ?g ! j'))) + 1"
    if j': "j' < 1000" for j'
  proof (cases "j' = ?j")
    case True
    have "textureHashTable ?g ! j' = int ?n"
      using True j sz(4) by (simp add: tht)
    then show ?thesis
      using True tex by simp
  next
    case False
    have same: "textureHashTable ?g ! j' = textureHashTable g ! j'"
      using False by (simp add: tht)
    from table_inv_heads [OF inv j'] show ?thesis
    proof
      assume "textureHashTable g ! j' = - 1"
      then show ?thesis by (simp add: same)
    next
      assume a: "0 \<le> textureHashTable g ! j' \<and> textureHashTable g ! j' < int ?n \<and>
        int j' = sint (tex_of (keys ! nat (textureHashTable g ! j'))) + 1"
      then have "nat (textureHashTable g ! j') < ?n" by linarith
      then show ?thesis using a by (simp add: same nth_append)
    qed
  qed
  have unused: "surfaceTable ?g ! i = SurfaceTableEntry_new"
    if "length (keys @ [k]) < i" "i < 2000" for i
  proof -
    have "surfaceTable ?g ! i = surfaceTable g ! i"
      using that by (simp add: st)
    then show ?thesis
      using table_inv_unused [OF inv, of i] that by simp
  qed
  have basics: "maxTextures ?g = 1000" "maxSurfaces ?g = 2000" "systemInitialized ?g"
    "length (textureHashTable ?g) = 1000"
    "length (hashCollisionData ?g) = 4000"
    "length (surfaceTable ?g) = 2000"
    "length (keys @ [k]) \<le> 1999"
    "nextSurfaceID ?g = of_nat (length (keys @ [k]) + 1)"
    "nextHashEntry ?g = of_nat (length (keys @ [k]))"
    using sz room by (simp_all add: inserted_def)
  show ?thesis
    unfolding table_inv_def
    using basics entries free heads unused by blast
qed

lemma default_generator_inv: "table_inv default_generator []"
  by (simp add: table_inv_def default_generator_def SurfaceHashEntry_new_def)

lemma run_calls_fresh:
  assumes "table_inv g done"
    and "distinct (done @ ks)"
    and "length done + length ks \<le> 1999"
    and "\<forall>k \<in> set ks. - 1 \<le> sint (tex_of k) \<and> sint (tex_of k) < 999"
    and "\<not> lastProcessedEvent eh"
  shows "\<exists>g'. run_calls ks g eh =
           Inr (map of_nat [length done + 1 ..< length done + length ks + 1], g', eh) \<and>
         table_inv g' (done @ ks)"
  using assms
proof (induction ks arbitrary: g "done")
  case Nil
  then show ?case by simp
next
  case (Cons k ks)
  obtain pt t fl where k: "k = (pt, t, fl)" by (cases k)
  have tex: "- 1 \<le> sint t" "sint t < 999"
    using Cons.prems(4) k by (simp_all add: tex_of_def)
  have fresh: "(pt, t, fl) \<notin> set done"
    using Cons.prems(2) k by simp
  have room: "length done < 1999"
    using Cons.prems(3) by simp
  have call: "GetOrCreateSurface pt t fl g eh =
     Inr (of_nat (length done + 1), inserted g (length done) (pt, t, fl), eh)"
    by (rule GetOrCreateSurface_fresh [OF Cons.prems(1) room tex fresh Cons.prems(5)])
  have inv': "table_inv (inserted g (length done) k) (done @ [k])"
    using tex k by (intro inserted_inv [OF Cons.prems(1) room]) (simp_all add: tex_of_def)
  have "\<exists>g'. run_calls ks (inserted g (length done) k) eh =
           Inr (map of_nat [length (done @ [k]) + 1 ..< length (done @ [k]) + length ks + 1],
                g', eh) \<and>
         table_inv g' ((done @ [k]) @ ks)"
    using Cons.prems by (intro Cons.IH [OF inv']) simp_all
  then obtain g' where
    rest: "run_calls ks (inserted g (length done) k) eh =
           Inr (map of_nat [length done + 2 ..< length done + length ks + 2], g', eh)"
    and inv'': "table_inv g' (done @ k # ks)"
    by auto
  have "[length done + 1 ..< length done + length (k # ks) + 1] =
        (length done + 1) # [Suc (length done + 1) ..< length done + length (k # ks) + 1]"
    by (rule upt_conv_Cons) simp
  then have "[length done + 1 ..< length done + length (k # ks) + 1] =
        (length done + 1) # [length done + 2 ..< length done + length ks + 2]"
    by simp
  then show ?case
    using call rest inv'' k by auto
qed

lemma run_calls_append:
  "run_calls (xs @ ys) g eh =
     (case run_calls xs g eh of
        Inl f \<Rightarrow> Inl f
      | Inr (a, g', eh') \<Rightarrow>
          (case run_calls ys g' eh' of
             Inl f \<Rightarrow> Inl f
           | Inr (b, g'', eh'') \<Rightarrow> Inr (a @ b, g'', eh'')))"
proof (induction xs arbitrary: g eh)
  case Nil
  then show ?case by (simp split: sum.splits)
next
  case (Cons k xs)
  obtain pt t fl where k: "k = (pt, t, fl)" by (cases k)
  show ?case
    by (simp add: k Cons.IH split: sum.splits prod.splits)
qed

lemma posted_funpow:
  "posted ((PostEvent c ^^ m) eh) = posted eh @ replicate m c"
  by (induction m) (simp_all add: PostEvent_def replicate_append_same)

lemma run_calls_full:
  assumes "table_inv g keys" and "length keys = 1999"
    and "\<forall>k \<in> set ks. k \<notin> set keys"
    and "\<forall>k \<in> set ks. - 1 \<le> sint (tex_of k) \<and> sint (tex_of k) < 999"
  shows "run_calls ks g eh =
     Inr (replicate (length ks) 0, g, (PostEvent 2402 ^^ length ks) eh)"
  using assms(3,4)
proof (induction ks arbitrary: eh)
  case Nil
  then show ?case by simp
next
  case (Cons k ks)
  obtain pt t fl where k: "k = (pt, t, fl)" by (cases k)
  have tex: "- 1 \<le> sint t" "sint t < 999"
    using Cons.prems(2) k by (simp_all add: tex_of_def)
  have fresh: "(pt, t, fl) \<notin> set keys"
    using Cons.prems(1) k by simp
  have call: "GetOrCreateSurface pt t fl g eh = Inr (0, g, PostEvent 2402 eh)"
    by (rule GetOrCreateSurface_full [OF assms(1,2) tex fresh])
  have rest: "run_calls ks g (PostEvent 2402 eh) =
     Inr (replicate (length ks) 0, g, (PostEvent 2402 ^^ length ks) (PostEvent 2402 eh))"
    using Cons.prems by (intro Cons.IH) simp_all
  show ?case
    by (simp add: k call rest funpow_swap1)
qed

lemma default_calls_beyond_limit:
  assumes dist: "distinct (ks @ ks')" and len: "length ks = 1999"
    and tex: "\<forall>k \<in> set (ks @ ks'). - 1 \<le> sint (tex_of k) \<and> sint (tex_of k) < 999"
  shows "default_calls (ks @ ks') =
     Inr (map of_nat [1 ..< 2000] @ replicate (length ks') 0, replicate (length ks') 2402)"
proof -
  have quiet: "\<not> lastProcessedEvent ErrorHandler_initial"
    by (simp add: ErrorHandler_initial_def)
  have "\<exists>g'. run_calls ks default_generator ErrorHandler_initial =
           Inr (map of_nat [length ([] :: surface_key list) + 1 ..<
                            length ([] :: surface_key list) + length ks + 1],
                g', ErrorHandler_initial) \<and>
         table_inv g' ([] @ ks)"
    using dist len tex quiet by (intro run_calls_fresh [OF default_generator_inv]) simp_all
  then obtain g' where
    first: "run_calls ks default_generator ErrorHandler_initial =
           Inr (map of_nat [1 ..< 2000], g', ErrorHandler_initial)"
    and inv: "table_inv g' ks"
    using len by auto
  have rest: "run_calls ks' g' ErrorHandler_initial =
     Inr (replicate (length ks') 0, g', (PostEvent 2402 ^^ length ks') ErrorHandler_initial)"
    using dist tex by (intro run_calls_full [OF inv len]) auto
  have p: "posted ((PostEvent 2402 ^^ length ks') ErrorHandler_initial) =
      replicate (length ks') 2402"
    by (simp add: posted_funpow ErrorHandler_initial_def)
  show ?thesis
    by (simp only: default_calls_def Initialize_default run_calls_append first rest p
        sum.case prod.case)
qed

lemma distinct_surface_test_keys: "n \<le> 65536 \<Longrightarrow> distinct (surface_test_keys n)"
proof -
  assume n: "n \<le> 65536"
  have "inj_on (\<lambda>i. (TriangleStrip, 0 :: 16 word, of_nat i :: 16 word)) {0 ..< n}"
  proof (rule inj_onI)
    fix i j
    assume i: "i \<in> {0 ..< n}" and j: "j \<in> {0 ..< n}"
      and eq: "(TriangleStrip, 0 :: 16 word, of_nat i :: 16 word) = (TriangleStrip, 0, of_nat j)"
    have "unat (of_nat i :: 16 word) = i" "unat (of_nat j :: 16 word) = j"
      using i j n by (simp_all add: unat16_of_nat)
    then show "i = j" using eq by (metis prod.inject)
  qed
  then show ?thesis
    by (simp add: surface_test_keys_def distinct_map)
qed

lemma tex_surface_test_keys:
  "\<forall>k \<in> set (surface_test_keys n). - 1 \<le> sint (tex_of k) \<and> sint (tex_of k) < 999"
  by (simp add: surface_test_keys_def tex_of_def)

lemma length_surface_test_keys: "length (surface_test_keys n) = n"
  by (simp add: surface_test_keys_def)

text \<open>
  Claim C6, as the code has it.  On a table initialised with the default bounds, 2000
  calls with distinct keys whose texture ids are between \<open>-1\<close> and 998: the first 1999
  return the ids 1 to 1999, and the 2000th returns 0 after posting event 2402.
\<close>

theorem surface_limit_after_1999:
  assumes "distinct keys" and "length keys = 2000"
    and "\<forall>k \<in> set keys. - 1 \<le> sint (tex_of k) \<and> sint (tex_of k) < 999"
  shows "default_calls keys = Inr (map of_nat [1 ..< 2000] @ [0], [2402])"
proof -
  have split: "keys = take 1999 keys @ drop 1999 keys"
    by simp
  have l: "length (take 1999 keys) = 1999" "length (drop 1999 keys) = 1"
    using assms(2) by simp_all
  have "default_calls (take 1999 keys @ drop 1999 keys) =
     Inr (map of_nat [1 ..< 2000] @ replicate (length (drop 1999 keys)) 0,
          replicate (length (drop 1999 keys)) 2402)"
    using assms l(1) by (intro default_calls_beyond_limit) simp_all
  then show ?thesis
    by (simp only: l append_take_drop_id) simp
qed

theorem surface_limit_after_1999_witness:
  "distinct (surface_test_keys 2000) \<and> length (surface_test_keys 2000) = 2000 \<and>
   default_calls (surface_test_keys 2000) = Inr (map of_nat [1 ..< 2000] @ [0], [2402])"
proof -
  have d: "distinct (surface_test_keys 2000)"
    by (rule distinct_surface_test_keys) simp
  have l: "length (surface_test_keys 2000) = 2000"
    by (rule length_surface_test_keys)
  show ?thesis
    using d l surface_limit_after_1999 [OF d l tex_surface_test_keys] by simp
qed

text \<open>
  Against claim C6 as stated: of 2401 calls with distinct keys the last 402 fail, each
  posting event 2402.
\<close>

theorem surface_limit_not_after_2401:
  "default_calls (surface_test_keys 2401) =
     Inr (map of_nat [1 ..< 2000] @ replicate 402 0, replicate 402 2402)"
proof -
  let ?ks = "take 1999 (surface_test_keys 2401)"
  let ?ks' = "drop 1999 (surface_test_keys 2401)"
  have "distinct (surface_test_keys 2401)"
    by (rule distinct_surface_test_keys) simp
  then have d: "distinct (?ks @ ?ks')"
    by (simp only: append_take_drop_id)
  have l: "length ?ks = 1999"
    by (simp add: length_surface_test_keys)
  have l': "length ?ks' = 402"
    by (simp add: length_surface_test_keys)
  have t: "\<forall>k \<in> set (?ks @ ?ks'). - 1 \<le> sint (tex_of k) \<and> sint (tex_of k) < 999"
    using tex_surface_test_keys [of 2401] by (simp only: append_take_drop_id)
  have "default_calls (?ks @ ?ks') =
     Inr (map of_nat [1 ..< 2000] @ replicate (length ?ks') 0, replicate (length ?ks') 2402)"
    by (rule default_calls_beyond_limit [OF d l t])
  then show ?thesis
    by (simp only: append_take_drop_id l')
qed

subsection \<open>Repeating a call\<close>

lemma active_bit_kept:
  fixes s :: "16 word"
  shows "(s OR 2) AND 1 = s AND 1" and "(s AND - 3) AND 1 = s AND 1"
proof -
  show "(s OR 2) AND 1 = s AND 1"
    by (rule bit_word_eqI) (auto simp add: bit_simps)
  have "(s AND NOT 2) AND 1 = s AND 1"
    by (rule bit_word_eqI) (auto simp add: bit_simps)
  then show "(s AND - 3) AND 1 = s AND 1"
    by simp
qed

lemma IsActive_SetAlpha [simp]: "IsActive (SetAlpha b e) = IsActive e"
  by (simp add: IsActive_def SetAlpha_def active_bit_kept)

lemma IsActive_SetActive [simp]: "IsActive (SetActive True e)"
proof -
  have "(s OR 1) AND 1 \<noteq> 0" for s :: "16 word"
  proof
    assume "(s OR 1) AND 1 = 0"
    then have "bit ((s OR 1) AND 1) 0 = bit (0 :: 16 word) 0" by simp
    then show False by (simp add: bit_simps)
  qed
  then show ?thesis
    by (simp add: IsActive_def SetActive_def)
qed

lemma IsActive_clear_alpha:
  "IsActive (e\<lparr>textureID := a, primitiveType := b, flags := c, status := status e AND NOT 0x02\<rparr>)
     = IsActive e"
  by (simp add: IsActive_def active_bit_kept)

lemma GetSurfaceHash_frame:
  assumes "textureHashTable g' = textureHashTable g"
    and "hashCollisionData g' = hashCollisionData g"
    and "maxTextures g' = maxTextures g"
    and "systemInitialized g' = systemInitialized g"
  shows "GetSurfaceHash pt t fl g' eh = GetSurfaceHash pt t fl g eh"
  by (simp only: GetSurfaceHash_def assms)

lemma GetSurfaceHash_found_quiet:
  assumes "GetSurfaceHash pt t fl g eh = Inr (sid, eh1)" and "sid \<noteq> 0xFFFF"
  shows "eh1 = eh"
  using assms
  by (auto simp add: GetSurfaceHash_def ProcessEvent_def Let_def
      split: if_splits sum.splits)

lemma GetSurfaceHash_miss_quiet:
  assumes "GetSurfaceHash pt t fl g eh = Inr (sid, eh1)" and "\<not> lastProcessedEvent eh1"
  shows "eh1 = eh \<and> \<not> (sint t \<ge> maxTextures g \<or> sint t < - 1)"
  using assms
  by (auto simp add: GetSurfaceHash_def ProcessEvent_def PostEvent_def Let_def
      split: if_splits sum.splits)

lemma UpdateSurfaceAlphaFlag_success:
  assumes "UpdateSurfaceAlphaFlag sid g eh = Inr (True, g', eh')"
  shows "eh' = eh \<and> IsValidSurfaceID g sid \<and> unat sid < length (surfaceTable g) \<and>
         IsActive (surfaceTable g ! unat sid) \<and>
         g' = g\<lparr>surfaceTable := (surfaceTable g)
                 [unat sid := SetAlpha (primitiveType (surfaceTable g ! unat sid) = 16646)
                                (surfaceTable g ! unat sid)]\<rparr>"
  using assms
  by (auto simp add: UpdateSurfaceAlphaFlag_def load_def Let_def split: if_splits)

lemma UpdateSurfaceAlphaFlag_active:
  assumes "IsValidSurfaceID g sid" and "unat sid < length (surfaceTable g)"
    and "IsActive (surfaceTable g ! unat sid)"
  shows "UpdateSurfaceAlphaFlag sid g eh =
     Inr (True,
          g\<lparr>surfaceTable := (surfaceTable g)
                 [unat sid := SetAlpha (primitiveType (surfaceTable g ! unat sid) = 16646)
                                (surfaceTable g ! unat sid)]\<rparr>,
          eh)"
  using assms by (simp add: UpdateSurfaceAlphaFlag_def load_def Let_def)

lemma IsValidSurfaceID_frame:
  "maxSurfaces g' = maxSurfaces g \<Longrightarrow> IsValidSurfaceID g' sid = IsValidSurfaceID g sid"
  by (simp add: IsValidSurfaceID_def)

lemma surface_system_ready:
  "(if \<not> b then ProcessEvent 0x960 eh else (True, eh)) = (True, eh)"
  by (simp add: ProcessEvent_def)

lemma GetOrCreateSurface_found:
  assumes "GetSurfaceHash pt t fl g eh = Inr (sid, eh1)" and "sid \<noteq> 0xFFFF"
  shows "GetOrCreateSurface pt t fl g eh =
     (case UpdateSurfaceAlphaFlag sid g eh1 of
        Inl f \<Rightarrow> Inl f
      | Inr (ok, g1, eh2) \<Rightarrow> if \<not> ok then Inr (0, g1, eh2) else Inr (sid, g1, eh2))"
  using assms by (simp add: GetOrCreateSurface_def surface_system_ready)

text \<open>A call that found its surface finds it again.\<close>

lemma GetOrCreateSurface_found_again:
  assumes look: "GetSurfaceHash pt t fl g eh = Inr (sid, eh1)" and found: "sid \<noteq> 0xFFFF"
    and call: "GetOrCreateSurface pt t fl g eh = Inr (sid', g', eh')" and ok: "sid' \<noteq> 0"
  shows "sid' = sid \<and> eh' = eh \<and>
         (\<exists>g''. GetOrCreateSurface pt t fl g' eh' = Inr (sid, g'', eh') \<and>
                 nextSurfaceID g'' = nextSurfaceID g' \<and> nextHashEntry g'' = nextHashEntry g')"
proof -
  have eh1: "eh1 = eh"
    by (rule GetSurfaceHash_found_quiet [OF look found])
  have call': "(case UpdateSurfaceAlphaFlag sid g eh of
        Inl f \<Rightarrow> Inl f
      | Inr (ok, g1, eh2) \<Rightarrow> if \<not> ok then Inr (0, g1, eh2) else Inr (sid, g1, eh2)) =
      Inr (sid', g', eh')"
    using call GetOrCreateSurface_found [OF look found] eh1 by simp
  obtain okk g1 eh2 where upd: "UpdateSurfaceAlphaFlag sid g eh = Inr (okk, g1, eh2)"
    using call' by (cases "UpdateSurfaceAlphaFlag sid g eh") auto
  have okk: "okk"
    using call' ok by (simp add: upd split: if_splits)
  have res: "sid' = sid" "g' = g1" "eh' = eh2"
    using call' okk by (simp_all add: upd)
  have upd1: "UpdateSurfaceAlphaFlag sid g eh = Inr (True, g1, eh2)"
    using upd okk by simp
  note s = UpdateSurfaceAlphaFlag_success [OF upd1]
  have g1: "g1 = g\<lparr>surfaceTable := (surfaceTable g)
                 [unat sid := SetAlpha (primitiveType (surfaceTable g ! unat sid) = 16646)
                                (surfaceTable g ! unat sid)]\<rparr>"
    and eh2: "eh2 = eh"
    using s by simp_all
  have "GetSurfaceHash pt t fl g1 eh = GetSurfaceHash pt t fl g eh"
    by (rule GetSurfaceHash_frame) (simp_all add: g1)
  then have look': "GetSurfaceHash pt t fl g1 eh = Inr (sid, eh)"
    using look eh1 by simp
  have valid: "IsValidSurfaceID g1 sid" "unat sid < length (surfaceTable g1)"
    "IsActive (surfaceTable g1 ! unat sid)"
    using s by (simp_all add: g1 IsValidSurfaceID_def)
  have upd': "UpdateSurfaceAlphaFlag sid g1 eh =
     Inr (True,
          g1\<lparr>surfaceTable := (surfaceTable g1)
                 [unat sid := SetAlpha (primitiveType (surfaceTable g1 ! unat sid) = 16646)
                                (surfaceTable g1 ! unat sid)]\<rparr>,
          eh)"
    by (rule UpdateSurfaceAlphaFlag_active [OF valid])
  have "GetOrCreateSurface pt t fl g1 eh =
     Inr (sid,
          g1\<lparr>surfaceTable := (surfaceTable g1)
                 [unat sid := SetAlpha (primitiveType (surfaceTable g1 ! unat sid) = 16646)
                                (surfaceTable g1 ! unat sid)]\<rparr>,
          eh)"
    by (simp add: GetOrCreateSurface_found [OF look' found] upd')
  then have "\<exists>g''. GetOrCreateSurface pt t fl g1 eh = Inr (sid, g'', eh) \<and>
                 nextSurfaceID g'' = nextSurfaceID g1 \<and> nextHashEntry g'' = nextHashEntry g1"
    by simp
  then show ?thesis
    using res eh2 by simp
qed

lemma GetOrCreateSurface_miss:
  assumes "GetSurfaceHash pt t fl g eh = Inr (0xFFFF, eh1)"
  shows "GetOrCreateSurface pt t fl g eh =
     (case GetNewSurface g eh1 of
        Inl f \<Rightarrow> Inl f
      | Inr (sid, g1, eh2) \<Rightarrow>
          if HasLastError eh2 then Inr (0, g1, eh2)
          else
            (case SetSurfaceInfo sid pt t fl g1 eh2 of
               Inl f \<Rightarrow> Inl f
             | Inr (ok, g2, eh3) \<Rightarrow>
                 if \<not> ok then Inr (0, g2, eh3)
                 else
                   (case AddSurfaceHash sid g2 eh3 of
                      Inl f \<Rightarrow> Inl f
                    | Inr (ok', g3, eh4) \<Rightarrow>
                        if \<not> ok' then Inr (0, g3, eh4) else Inr (sid, g3, eh4))))"
  using assms by (simp add: GetOrCreateSurface_def surface_system_ready)

lemma InitializeSurface_frame:
  assumes "InitializeSurface sid g = Inr g'"
  shows "maxSurfaces g' = maxSurfaces g \<and> maxTextures g' = maxTextures g \<and>
         systemInitialized g' = systemInitialized g \<and>
         textureHashTable g' = textureHashTable g \<and>
         hashCollisionData g' = hashCollisionData g"
  using assms
  by (auto simp add: InitializeSurface_def load_def split: if_splits)

lemma GetNewSurface_success:
  assumes "GetNewSurface g eh = Inr (sid, g1, eh2)" and "\<not> lastProcessedEvent eh2"
  shows "eh2 = eh \<and> uint sid < maxSurfaces g \<and>
         maxSurfaces g1 = maxSurfaces g \<and> maxTextures g1 = maxTextures g \<and>
         systemInitialized g1 = systemInitialized g \<and>
         textureHashTable g1 = textureHashTable g \<and>
         hashCollisionData g1 = hashCollisionData g"
proof (cases "uint (nextSurfaceID g) \<ge> maxSurfaces g")
  case True
  then show ?thesis
    using assms by (auto simp add: GetNewSurface_def PostEvent_def)
next
  case False
  let ?g1 = "g\<lparr>nextSurfaceID := nextSurfaceID g + 1\<rparr>"
  let ?new = "nextSurfaceID g"
  show ?thesis
  proof (cases "load (surfaceTable ?g1) (unat ?new)")
    case (Inl f)
    then show ?thesis
      using assms False by (simp add: GetNewSurface_def Let_def)
  next
    case (Inr surface)
    show ?thesis
    proof (cases "IsActive surface")
      case True
      then show ?thesis
        using assms False Inr by (auto simp add: GetNewSurface_def Let_def PostEvent_def)
    next
      case inactive: False
      let ?g2 = "?g1\<lparr>surfaceTable := (surfaceTable ?g1)[unat ?new := SetActive True surface]\<rparr>"
      show ?thesis
      proof (cases "InitializeSurface ?new ?g2")
        case (Inl f)
        then show ?thesis
          using assms False Inr inactive by (simp add: GetNewSurface_def Let_def)
      next
        case g3: (Inr g3)
        have res: "sid = ?new" "g1 = g3" "eh2 = eh"
          using assms False Inr inactive g3 by (simp_all add: GetNewSurface_def Let_def)
        show ?thesis
          using InitializeSurface_frame [OF g3] False res by simp
      qed
    qed
  qed
qed

lemma SetSurfaceInfo_success:
  assumes "SetSurfaceInfo sid pt t fl g eh = Inr (True, g', eh')"
  shows "eh' = eh \<and> IsValidSurfaceID g sid \<and>
         maxSurfaces g' = maxSurfaces g \<and> maxTextures g' = maxTextures g \<and>
         systemInitialized g' = systemInitialized g \<and>
         textureHashTable g' = textureHashTable g \<and>
         hashCollisionData g' = hashCollisionData g \<and>
         unat sid < length (surfaceTable g') \<and>
         IsActive (surfaceTable g' ! unat sid) \<and>
         textureID (surfaceTable g' ! unat sid) = t \<and>
         primitiveType (surfaceTable g' ! unat sid) = pt \<and>
         flags (surfaceTable g' ! unat sid) = fl"
proof -
  have valid: "IsValidSurfaceID g sid"
    using assms by (auto simp add: SetSurfaceInfo_def split: if_splits)
  obtain surface where ld: "load (surfaceTable g) (unat sid) = Inr surface"
    using assms valid by (cases "load (surfaceTable g) (unat sid)") (auto simp add: SetSurfaceInfo_def)
  have inb: "unat sid < length (surfaceTable g)"
    using ld by (auto simp add: load_def split: if_splits)
  let ?g1 = "g\<lparr>surfaceTable := (surfaceTable g)
                      [unat sid := surface\<lparr>primitiveType := pt, textureID := t, flags := fl\<rparr>]\<rparr>"
  have upd: "UpdateSurfaceAlphaFlag sid ?g1 eh = Inr (True, g', eh')"
    using assms valid ld by (auto simp add: SetSurfaceInfo_def split: if_splits)
  note s = UpdateSurfaceAlphaFlag_success [OF upd]
  have g': "g' = ?g1\<lparr>surfaceTable := (surfaceTable ?g1)
                 [unat sid := SetAlpha (primitiveType (surfaceTable ?g1 ! unat sid) = 16646)
                                (surfaceTable ?g1 ! unat sid)]\<rparr>"
    using s by blast
  have fields: "textureID (SetAlpha b e) = textureID e"
    "primitiveType (SetAlpha b e) = primitiveType e" "flags (SetAlpha b e) = flags e"
    for b e
    by (simp_all add: SetAlpha_def)
  show ?thesis
    using s valid inb by (simp add: g' fields)
qed

lemma FindFreeHashEntry_frame:
  assumes "FindFreeHashEntry g = Inr (idx, g1)"
  shows "hashCollisionData g1 = hashCollisionData g \<and>
         textureHashTable g1 = textureHashTable g \<and>
         surfaceTable g1 = surfaceTable g \<and>
         maxSurfaces g1 = maxSurfaces g \<and> maxTextures g1 = maxTextures g \<and>
         systemInitialized g1 = systemInitialized g \<and>
         nextSurfaceID g1 = nextSurfaceID g"
  using assms
  by (auto simp add: FindFreeHashEntry_def split: sum.splits option.splits)

lemma chain_walk_head:
  assumes "0 < fuel" and "0 \<le> e" and "nat e < length hcd" and "searchKey (hcd ! nat e) = key"
  shows "chain_walk fuel hcd key e = Inr (surfaceID (hcd ! nat e))"
  using assms by (cases fuel) simp_all

lemma GetSurfaceHash_hit:
  assumes "\<not> (sint t \<ge> maxTextures g \<or> sint t < - 1)"
    and "nat (sint t + 1) < length (textureHashTable g)"
    and "textureHashTable g ! nat (sint t + 1) = uint idx"
    and "unat idx < length (hashCollisionData g)"
    and "searchKey (hashCollisionData g ! unat idx) = GetSearchKey pt fl"
  shows "GetSurfaceHash pt t fl g eh = Inr (surfaceID (hashCollisionData g ! unat idx), eh)"
proof -
  have walk: "chain_walk (length (hashCollisionData g) + 1) (hashCollisionData g)
          (GetSearchKey pt fl) (uint idx) = Inr (surfaceID (hashCollisionData g ! nat (uint idx)))"
    using assms(4,5) by (intro chain_walk_head) simp_all
  have ne: "uint idx \<noteq> - 1"
    using uint_ge_0 [of idx] by linarith
  show ?thesis
    using assms(1,2,3) ne walk
    by (simp add: GetSurfaceHash_def surface_system_ready load_def)
qed

lemma AddSurfaceHash_success:
  assumes "AddSurfaceHash sid g eh = Inr (True, g', eh')"
    and "unat sid < length (surfaceTable g)"
  shows "eh' = eh \<and> surfaceTable g' = surfaceTable g \<and>
         maxSurfaces g' = maxSurfaces g \<and> maxTextures g' = maxTextures g \<and>
         systemInitialized g' = systemInitialized g \<and>
         IsValidTextureID g (textureID (surfaceTable g ! unat sid)) \<and>
         (\<exists>idx :: 16 word. unat idx < length (hashCollisionData g') \<and>
            nat (sint (textureID (surfaceTable g ! unat sid)) + 1) < length (textureHashTable g') \<and>
            textureHashTable g' ! nat (sint (textureID (surfaceTable g ! unat sid)) + 1) = uint idx \<and>
            searchKey (hashCollisionData g' ! unat idx) =
              GetSearchKey (primitiveType (surfaceTable g ! unat sid))
                (flags (surfaceTable g ! unat sid)) \<and>
            surfaceID (hashCollisionData g' ! unat idx) = sid)"
proof -
  let ?surface = "surfaceTable g ! unat sid"
  let ?tex = "textureID ?surface"
  let ?j = "nat (sint ?tex + 1)"
  have ld: "load (surfaceTable g) (unat sid) = Inr ?surface"
    using assms(2) by (simp add: load_def)
  have valid: "IsValidSurfaceID g sid"
    using assms(1) by (auto simp add: AddSurfaceHash_def split: if_splits)
  have tex: "IsValidTextureID g ?tex"
    using assms(1) valid ld by (auto simp add: AddSurfaceHash_def Let_def split: if_splits)
  obtain idx g1 where free: "FindFreeHashEntry g = Inr (idx, g1)"
    using assms(1) valid ld tex
    by (cases "FindFreeHashEntry g") (auto simp add: AddSurfaceHash_def Let_def)
  note fr = FindFreeHashEntry_frame [OF free]
  have idx: "idx \<noteq> 0xFFFF"
    using assms(1) valid ld tex free by (auto simp add: AddSurfaceHash_def Let_def split: if_splits)
  obtain hashEntry where he: "load (hashCollisionData g1) (unat idx) = Inr hashEntry"
    using assms(1) valid ld tex free idx
    by (cases "load (hashCollisionData g1) (unat idx)") (auto simp add: AddSurfaceHash_def Let_def)
  obtain currentFirst where cf: "load (textureHashTable g1) ?j = Inr currentFirst"
    using assms(1) valid ld tex free idx he
    by (cases "load (textureHashTable g1) ?j") (auto simp add: AddSurfaceHash_def Let_def)
  have inb: "unat idx < length (hashCollisionData g)" "?j < length (textureHashTable g)"
    using he cf fr by (auto simp add: load_def split: if_splits)
  have res: "eh' = eh"
    "g' = g1\<lparr>hashCollisionData := (hashCollisionData g1)
               [unat idx := hashEntry\<lparr>searchKey := GetSearchKey (primitiveType ?surface)
                                                        (flags ?surface),
                                      surfaceID := sid, nextEntry := currentFirst\<rparr>],
             textureHashTable := (textureHashTable g1)[?j := uint idx]\<rparr>"
    using assms(1) valid ld tex free idx he cf
    by (simp_all add: AddSurfaceHash_def Let_def)
  have "unat idx < length (hashCollisionData g') \<and>
            ?j < length (textureHashTable g') \<and>
            textureHashTable g' ! ?j = uint idx \<and>
            searchKey (hashCollisionData g' ! unat idx) =
              GetSearchKey (primitiveType ?surface) (flags ?surface) \<and>
            surfaceID (hashCollisionData g' ! unat idx) = sid"
    using inb fr by (simp add: res(2))
  then have ex: "\<exists>idx :: 16 word. unat idx < length (hashCollisionData g') \<and>
            ?j < length (textureHashTable g') \<and>
            textureHashTable g' ! ?j = uint idx \<and>
            searchKey (hashCollisionData g' ! unat idx) =
              GetSearchKey (primitiveType ?surface) (flags ?surface) \<and>
            surfaceID (hashCollisionData g' ! unat idx) = sid"
    by blast
  have frames: "surfaceTable g' = surfaceTable g" "maxSurfaces g' = maxSurfaces g"
    "maxTextures g' = maxTextures g" "systemInitialized g' = systemInitialized g"
    using fr by (simp_all add: res(2))
  show ?thesis
    using res(1) frames tex ex by blast
qed

text \<open>A call that created its surface finds it at the head of the texture's chain.\<close>

lemma GetOrCreateSurface_created_again:
  assumes look: "GetSurfaceHash pt t fl g eh = Inr (0xFFFF, eh1)"
    and call: "GetOrCreateSurface pt t fl g eh = Inr (sid', g', eh')" and ok: "sid' \<noteq> 0"
    and bound: "maxSurfaces g \<le> 65535"
  shows "\<exists>g''. GetOrCreateSurface pt t fl g' eh' = Inr (sid', g'', eh') \<and>
                 nextSurfaceID g'' = nextSurfaceID g' \<and> nextHashEntry g'' = nextHashEntry g'"
proof -
  note call' = call [unfolded GetOrCreateSurface_miss [OF look]]
  obtain sid g1 eh2 where new: "GetNewSurface g eh1 = Inr (sid, g1, eh2)"
    using call' by (cases "GetNewSurface g eh1") auto
  have quiet: "\<not> lastProcessedEvent eh2"
    using call' ok by (auto simp add: new HasLastError_def split: if_splits)
  have call2: "(case SetSurfaceInfo sid pt t fl g1 eh2 of
               Inl f \<Rightarrow> Inl f
             | Inr (ok, g2, eh3) \<Rightarrow>
                 if \<not> ok then Inr (0, g2, eh3)
                 else
                   (case AddSurfaceHash sid g2 eh3 of
                      Inl f \<Rightarrow> Inl f
                    | Inr (ok', g3, eh4) \<Rightarrow>
                        if \<not> ok' then Inr (0, g3, eh4) else Inr (sid, g3, eh4))) =
         Inr (sid', g', eh')"
    using call' quiet by (simp add: new HasLastError_def)
  obtain ok2 g2 eh3 where set0: "SetSurfaceInfo sid pt t fl g1 eh2 = Inr (ok2, g2, eh3)"
    using call2 by (cases "SetSurfaceInfo sid pt t fl g1 eh2") auto
  have ok2: "ok2"
    using call2 ok by (auto simp add: set0 split: if_splits)
  have set: "SetSurfaceInfo sid pt t fl g1 eh2 = Inr (True, g2, eh3)"
    using set0 ok2 by simp
  have call3: "(case AddSurfaceHash sid g2 eh3 of
                      Inl f \<Rightarrow> Inl f
                    | Inr (ok', g3, eh4) \<Rightarrow>
                        if \<not> ok' then Inr (0, g3, eh4) else Inr (sid, g3, eh4)) =
         Inr (sid', g', eh')"
    using call2 by (simp add: set)
  obtain ok3 g3 eh4 where add0: "AddSurfaceHash sid g2 eh3 = Inr (ok3, g3, eh4)"
    using call3 by (cases "AddSurfaceHash sid g2 eh3") auto
  have ok3: "ok3"
    using call3 ok by (auto simp add: add0 split: if_splits)
  have add: "AddSurfaceHash sid g2 eh3 = Inr (True, g3, eh4)"
    using add0 ok3 by simp
  have res: "sid' = sid" "g' = g3" "eh' = eh4"
    using call3 by (simp_all add: add)
  note n = GetNewSurface_success [OF new quiet]
  note s = SetSurfaceInfo_success [OF set]
  have inb: "unat sid < length (surfaceTable g2)"
    using s by blast
  note a = AddSurfaceHash_success [OF add inb]
  have surface: "textureID (surfaceTable g2 ! unat sid) = t"
    "primitiveType (surfaceTable g2 ! unat sid) = pt"
    "flags (surfaceTable g2 ! unat sid) = fl"
    using s by blast+
  obtain idx :: "16 word" where idx: "unat idx < length (hashCollisionData g3)"
    "nat (sint t + 1) < length (textureHashTable g3)"
    "textureHashTable g3 ! nat (sint t + 1) = uint idx"
    "searchKey (hashCollisionData g3 ! unat idx) = GetSearchKey pt fl"
    "surfaceID (hashCollisionData g3 ! unat idx) = sid"
    using a unfolding surface by blast
  have tex: "\<not> (sint t \<ge> maxTextures g3 \<or> sint t < - 1)"
    using a unfolding surface by (auto simp add: IsValidTextureID_def)
  have look': "GetSurfaceHash pt t fl g3 eh4 = Inr (sid, eh4)"
    using GetSurfaceHash_hit [OF tex idx(2,3,1,4), of eh4] idx(5) by simp
  have "uint sid < 65535"
    using n bound by linarith
  then have found: "sid \<noteq> 0xFFFF"
    by auto
  have valid: "IsValidSurfaceID g3 sid" "unat sid < length (surfaceTable g3)"
    "IsActive (surfaceTable g3 ! unat sid)"
    using s a by (auto simp add: IsValidSurfaceID_def)
  have upd: "UpdateSurfaceAlphaFlag sid g3 eh4 =
     Inr (True,
          g3\<lparr>surfaceTable := (surfaceTable g3)
                 [unat sid := SetAlpha (primitiveType (surfaceTable g3 ! unat sid) = 16646)
                                (surfaceTable g3 ! unat sid)]\<rparr>,
          eh4)"
    by (rule UpdateSurfaceAlphaFlag_active [OF valid])
  have "GetOrCreateSurface pt t fl g3 eh4 =
     Inr (sid,
          g3\<lparr>surfaceTable := (surfaceTable g3)
                 [unat sid := SetAlpha (primitiveType (surfaceTable g3 ! unat sid) = 16646)
                                (surfaceTable g3 ! unat sid)]\<rparr>,
          eh4)"
    by (simp add: GetOrCreateSurface_found [OF look' found] upd)
  then show ?thesis
    by (simp add: res)
qed

text \<open>
  Wherever a call returns a surface id, the same call made again returns the same id and
  allocates neither a surface nor a hash entry.
\<close>

lemma GetOrCreateSurface_twice:
  assumes call: "GetOrCreateSurface pt t fl g eh = Inr (sid, g', eh')" and ok: "sid \<noteq> 0"
    and bound: "maxSurfaces g \<le> 65535"
  shows "\<exists>g''. GetOrCreateSurface pt t fl g' eh' = Inr (sid, g'', eh') \<and>
                 nextSurfaceID g'' = nextSurfaceID g' \<and> nextHashEntry g'' = nextHashEntry g'"
proof (cases "GetSurfaceHash pt t fl g eh")
  case (Inl f)
  then show ?thesis
    using call by (simp add: GetOrCreateSurface_def surface_system_ready)
next
  case (Inr r)
  obtain found eh1 where look: "GetSurfaceHash pt t fl g eh = Inr (found, eh1)"
    using Inr by (cases r) simp
  show ?thesis
  proof (cases "found = 0xFFFF")
    case True
    then show ?thesis
      using GetOrCreateSurface_created_again [OF _ call ok bound] look by simp
  next
    case False
    then show ?thesis
      using GetOrCreateSurface_found_again [OF look False call ok] by blast
  qed
qed

end
